theory Spec2Isabelle
  imports Main "HOL-Library.AList"
begin

section \<open>The type model consumed by the generator\<close>

text \<open>
  The generator (\<^verbatim>\<open>src/main.go\<close>) walks type descriptors of the Go type checker.
  A descriptor is modelled by the datatype \<open>ty\<close>. A declared (named) type is a node with
  an identity of its own, so it is referred to by its declaration number; what the
  declaration says (owning package, name, underlying type, declared methods) is looked
  up in the type model \<open>named W\<close>. This keeps the type graph free to be cyclic, as Go's is
  (\<^verbatim>\<open>type A struct { Next *B }\<close>, \<^verbatim>\<open>type B struct { Prev *A }\<close>).

  A struct field is (name, type, exported); a method is (name, type of the method), the
  type being a \<open>Signature\<close> (receiver type, parameter types, result types). The
  descriptors carry what the generator reads: field tags, embedding, the direction of a
  channel, parameter names, type parameters and alias declarations are left out.
\<close>

datatype ty =
    Basic string
  | Named nat
  | Pointer ty
  | Slice ty
  | Array nat ty
  | Map ty ty
  | Chan ty
  | Struct "(string \<times> ty \<times> bool) list"
  | Signature ty "ty list" "ty list"
  | Interface "(string \<times> ty) list"

record decl =
  obj_pkg :: "(string \<times> string) option"
  obj_name :: string
  underlying :: ty
  methods :: "(string \<times> ty) list"

text \<open>
  \<open>obj_pkg\<close> is \<^verbatim>\<open>Obj().Pkg()\<close> as (package name, package path), \<open>None\<close> for a type of
  the universe scope. The library functions of the host that the generator calls and
  whose code is not part of the repository are fields of the record \<open>world\<close>:
  \<open>type_string\<close> is \<^verbatim>\<open>types.Type.String\<close>, \<open>quote\<close> is the \<^verbatim>\<open>%q\<close> verb of
  \<^verbatim>\<open>fmt\<close>, \<open>format_source\<close> is \<^verbatim>\<open>format.Source\<close> (\<open>Inl\<close> the parse error), \<open>load\<close>
  is \<^verbatim>\<open>packages.Load\<close> (\<open>Inl\<close> its error), \<open>os_args\<close> is \<^verbatim>\<open>os.Args\<close>. \<open>open_file\<close> says
  whether \<^verbatim>\<open>os.OpenFile\<close> succeeds on a path; \<open>truncate_error\<close> and \<open>write_error\<close> are
  the errors of \<^verbatim>\<open>Truncate\<close> and \<^verbatim>\<open>Write\<close> on the output file, if any. A package is
  its name and the types of the objects of \<^verbatim>\<open>TypesInfo.Defs\<close> (\<open>None\<close> for a nil object or
  an object without a type), in the order the loop of \<^verbatim>\<open>locateType\<close> meets them.
\<close>

record package =
  pkg_name :: string
  defs :: "ty option list"

record world =
  named :: "nat \<Rightarrow> decl"
  type_string :: "ty \<Rightarrow> string"
  quote :: "string \<Rightarrow> string"
  format_source :: "string \<Rightarrow> string + string"
  load :: "string \<Rightarrow> string + package list"
  os_args :: "string list"
  open_file :: "string \<Rightarrow> bool"
  truncate_error :: "string option"
  write_error :: "string option"

abbreviation NL :: string where
  "NL \<equiv> [CHR 0x0A]"

abbreviation TAB :: string where
  "TAB \<equiv> [CHR 0x09]"

text \<open>
  \<^verbatim>\<open>m.Underlying()\<close>: the declaration's underlying type for a named type, the type itself
  otherwise.
\<close>

definition Underlying :: "world \<Rightarrow> ty \<Rightarrow> ty" where
  "Underlying W t = (case t of Named k \<Rightarrow> underlying (named W k) | _ \<Rightarrow> t)"

text \<open>
  \<^verbatim>\<open>types.Identical\<close>: named types are identical when they are the same declaration,
  other types when they have the same structure. The constructors of \<open>ty\<close> carry a named
  type as its declaration number, so this is equality of descriptors. The generator
  compares a type with a member of the Generation Set, and the reduced result type of a
  method with its reduced receiver type; one side is a named type in the first case,
  and in the second too unless the method is one of an unnamed interface.
\<close>

definition Identical :: "ty \<Rightarrow> ty \<Rightarrow> bool" where
  "Identical s t = (s = t)"

text \<open>
  The interface \<^verbatim>\<open>methoder\<close> asks for \<^verbatim>\<open>Method(i)\<close> and \<^verbatim>\<open>NumMethods()\<close>: of the
  descriptors, named types and interface types have both. \<open>Methods\<close> lists
  \<^verbatim>\<open>Method(0)\<close> to \<^verbatim>\<open>Method(NumMethods()-1)\<close>: the methods declared for a named type
  (none for a named interface type, whose methods belong to its underlying type), the
  methods of an interface type. Every method has a receiver, so \<^verbatim>\<open>sig.Recv()\<close> is
  not nil.
\<close>

fun methoder :: "ty \<Rightarrow> bool" where
  "methoder (Named k) = True"
| "methoder (Interface ms) = True"
| "methoder t = False"

fun Methods :: "world \<Rightarrow> ty \<Rightarrow> (string \<times> ty) list" where
  "Methods W (Named k) = methods (named W k)"
| "Methods W (Interface ms) = ms"
| "Methods W t = []"

text \<open>
  \<^verbatim>\<open>reducePointer\<close> (lines 277-282) asserts its argument to the interface
  \<^verbatim>\<open>pointer\<close>, which asks for nothing but a method \<^verbatim>\<open>Elem() types.Type\<close>. Pointer,
  slice, array, map and channel descriptors all have that method (a map's \<^verbatim>\<open>Elem\<close> is
  its value type), so each of them is reduced to its element.
\<close>

fun reducePointer :: "ty \<Rightarrow> ty \<times> bool" where
  "reducePointer (Pointer e) = (e, True)"
| "reducePointer (Slice e) = (e, True)"
| "reducePointer (Array n e) = (e, True)"
| "reducePointer (Map k e) = (e, True)"
| "reducePointer (Chan e) = (e, True)"
| "reducePointer t = (t, False)"

text \<open>
  \<^verbatim>\<open>objFromType\<close> (lines 284-293): the declaration behind a type, after
  \<^verbatim>\<open>reducePointer\<close>; the interface \<^verbatim>\<open>object\<close> asks for \<^verbatim>\<open>Obj()\<close>, which named types
  have. The result is the declaration number.
\<close>

definition objFromType :: "ty \<Rightarrow> nat option" where
  "objFromType typ = (case fst (reducePointer typ) of Named k \<Rightarrow> Some k | _ \<Rightarrow> None)"

section \<open>The Capability Detector\<close>

text \<open>
  The loop over the declared methods of \<^verbatim>\<open>hasDeepCopy\<close> (lines 491-517). A method that
  is not called \<^verbatim>\<open>DeepCopy\<close>, whose type is not a signature, or that has a parameter or
  not exactly one result is passed over; the first one that remains decides.
\<close>

fun scanMethods :: "(string \<times> ty) list \<Rightarrow> bool \<times> bool" where
  "scanMethods [] = (False, False)"
| "scanMethods ((name, Signature recv params results) # ms) =
     (if name \<noteq> ''DeepCopy'' then scanMethods ms
      else if length params \<noteq> 0 \<or> length results \<noteq> 1 then scanMethods ms
      else
        (let (retType, retPointer) = reducePointer (hd results);
             (sigType, _) = reducePointer recv
         in if \<not> Identical retType sigType then (False, False)
            else (True, retPointer)))"
| "scanMethods ((name, t) # ms) = scanMethods ms"

text \<open>
  \<^verbatim>\<open>hasDeepCopy\<close> (lines 484-518). \<open>generating\<close> is the Generation Set, a list of
  declarations (\<^verbatim>\<open>[]object\<close>).
\<close>

definition hasDeepCopy :: "world \<Rightarrow> ty \<Rightarrow> nat list \<Rightarrow> bool \<Rightarrow> bool \<times> bool" where
  "hasDeepCopy W v generating pointer =
     (if list_ex (\<lambda>t. Identical v (Named t)) generating then (True, pointer)
      else scanMethods (Methods W v))"

text \<open>
  \<^verbatim>\<open>reuseDeepCopy\<close> (lines 520-540): the answer and the text written to \<^verbatim>\<open>w\<close>.
\<close>

definition reuseDeepCopy ::
  "world \<Rightarrow> string \<Rightarrow> string \<Rightarrow> ty \<Rightarrow> bool \<Rightarrow> nat list \<Rightarrow> bool \<times> string" where
  "reuseDeepCopy W source sink v pointer generating =
     (let (hasMethod, isPointer) = hasDeepCopy W v generating pointer
      in (hasMethod,
          if hasMethod then
            (if pointer = isPointer then sink @ '' = '' @ source @ ''.DeepCopy()'' @ NL
             else if pointer then
               ''retV := '' @ source @ ''.DeepCopy()'' @ NL @ TAB @ sink @ '' = &retV'' @ NL
             else
               ''{'' @ NL @ TAB @ ''retV := '' @ source @ ''.DeepCopy()'' @ NL @
               TAB @ sink @ '' = *retV'' @ NL @ ''}'' @ NL)
          else []))"

section \<open>Selectors and element type names\<close>

text \<open>
  \<^verbatim>\<open>sel[strings.Index(sel, ".")+1:]\<close>: what follows the first dot, the whole string when
  there is none (\<^verbatim>\<open>Index\<close> is then -1).
\<close>

definition afterFirstDot :: "string \<Rightarrow> string" where
  "afterFirstDot sel =
     (case dropWhile (\<lambda>c. c \<noteq> CHR ''.'') sel of [] \<Rightarrow> sel | c # r \<Rightarrow> r)"

text \<open>\<^verbatim>\<open>selToIdent\<close> (lines 542-553).\<close>

definition selToIdent :: "string \<Rightarrow> string" where
  "selToIdent sel =
     map (\<lambda>r. if r = CHR ''['' \<or> r = CHR ''.'' then CHR ''_'' else r)
       (filter (\<lambda>c. c \<noteq> CHR '']'') sel)"

text \<open>\<^verbatim>\<open>strings.ReplaceAll(path, "/", "_")\<close>.\<close>

definition flattenPath :: "string \<Rightarrow> string" where
  "flattenPath path = map (\<lambda>c. if c = CHR ''/'' then CHR ''_'' else c) path"

text \<open>
  The Reference Table \<^verbatim>\<open>imports\<close> maps a local alias to a package path. It is an
  association list with one entry per alias; \<^verbatim>\<open>imports[name] = path\<close> is
  \<open>AList.update\<close>, a lookup is \<open>map_of\<close>.

  A walk ends in one of three ways: it returns, it panics, or the model's bound on the
  depth of the recursion is used up.
\<close>

type_synonym importsTable = "(string \<times> string) list"

datatype 'a outcome = Done 'a | Panic | OutOfFuel

text \<open>
  \<^verbatim>\<open>getElemType\<close> (lines 455-482) returns the type name to print and updates the
  Reference Table. \<^verbatim>\<open>kind[0]\<close> panics on the empty string.
\<close>

definition getElemType ::
  "world \<Rightarrow> ty \<Rightarrow> string \<Rightarrow> importsTable \<Rightarrow> bool \<Rightarrow> (string \<times> importsTable) outcome" where
  "getElemType W t x imports rawkind =
     (let (kind, imports') =
            (case objFromType t of
               Some k \<Rightarrow>
                 (case obj_pkg (named W k) of
                    Some (pname, ppath) \<Rightarrow>
                      if pname \<noteq> x then
                        (let name =
                               (case map_of imports pname of
                                  Some path \<Rightarrow> if path \<noteq> ppath then flattenPath ppath else pname
                                | None \<Rightarrow> pname)
                         in (name @ ''.'' @ obj_name (named W k), AList.update name ppath imports))
                      else (obj_name (named W k), imports)
                  | None \<Rightarrow> (obj_name (named W k), imports))
             | None \<Rightarrow> (type_string W t, imports));
          pointer = (case t of Pointer e \<Rightarrow> True | _ \<Rightarrow> False)
      in if \<not> rawkind \<and> pointer then
           (case kind of
              [] \<Rightarrow> Panic
            | c # r \<Rightarrow> if c \<noteq> CHR ''*'' then Done (''*'' @ kind, imports') else Done (kind, imports'))
         else Done (kind, imports'))"

section \<open>The Code Synthesis Engine\<close>

text \<open>
  \<^verbatim>\<open>walkType\<close> (lines 309-453) writes to \<^verbatim>\<open>w\<close> and updates \<^verbatim>\<open>imports\<close>; the model
  returns the text written and the updated table. The recursion follows the type graph,
  which may be cyclic, so the walk need not return: the first argument after the type
  model bounds the depth of the recursion, and \<open>OutOfFuel\<close> says the bound was reached.
  A walk that reaches every bound is a recursion without end in the program, which the
  Go runtime stops with a stack overflow.

  Each case of the \<^verbatim>\<open>switch\<close> on the underlying type is a definition of its own. Its
  argument \<open>walk\<close> stands for the recursive call
  \<^verbatim>\<open>walkType(source', sink', x, t, _, imports, skips, generating, false)\<close>, as a function
  of source, sink, type and the table at the time of the call. \<open>skips\<close> is the
  skip-selector set (a nil map has no member). \<open>andThen\<close> passes a result on and lets a
  panic or the end of the bound through. A descriptor of the model is never nil, so the
  test of line 310 has no counterpart: \<^verbatim>\<open>generateFunc\<close> passes a declaration, and the
  walk passes the type of a field, an element or a key.
\<close>

fun andThen :: "'a outcome \<Rightarrow> ('a \<Rightarrow> 'b outcome) \<Rightarrow> 'b outcome" where
  "andThen (Done r) f = f r"
| "andThen Panic f = Panic"
| "andThen OutOfFuel f = OutOfFuel"

type_synonym walker = "string \<Rightarrow> string \<Rightarrow> ty \<Rightarrow> importsTable \<Rightarrow> (string \<times> importsTable) outcome"

text \<open>The case \<^verbatim>\<open>*types.Slice\<close> (lines 342-378).\<close>

definition sliceCase ::
  "world \<Rightarrow> walker \<Rightarrow> string \<Rightarrow> string \<Rightarrow> string \<Rightarrow> ty \<Rightarrow> importsTable \<Rightarrow> string set \<Rightarrow> bool
     \<Rightarrow> (string \<times> importsTable) outcome" where
  "sliceCase W walk source sink x e imports skips initial =
     andThen (getElemType W e x imports False) (\<lambda>(kind, imports1).
       let sel = afterFirstDot (if initial then ''[i]'' else sink @ ''[i]'');
           skipSlice = (sel \<in> skips);
           head = ''if '' @ source @ '' != nil {'' @ NL @ TAB @ sink @ '' = make([]'' @ kind @
                  '', len('' @ source @ ''))'' @ NL @
                  ''copy('' @ sink @ '', '' @ source @ '')'' @ NL
       in andThen (if skipSlice then Done ([], imports1)
                   else walk (source @ ''[i]'') (sink @ ''[i]'') e imports1) (\<lambda>(b, imports2).
            Done (head @
                  (if b \<noteq> [] then ''    for i := range '' @ source @ '' {'' @ NL @ b @ ''}'' @ NL
                   else []) @
                  ''}'' @ NL, imports2)))"

text \<open>The case \<^verbatim>\<open>*types.Pointer\<close> (lines 379-392).\<close>

definition pointerCase ::
  "world \<Rightarrow> walker \<Rightarrow> string \<Rightarrow> string \<Rightarrow> string \<Rightarrow> ty \<Rightarrow> importsTable \<Rightarrow> nat list \<Rightarrow> bool
     \<Rightarrow> (string \<times> importsTable) outcome" where
  "pointerCase W walk source sink x e imports generating initial =
     (let head = ''if '' @ source @ '' != nil {'' @ NL;
          (reused, call) =
            (if methoder e \<and> \<not> initial then reuseDeepCopy W source sink e True generating
             else (False, []))
      in if reused then Done (head @ call @ ''}'' @ NL, imports)
         else
           andThen (getElemType W e x imports True) (\<lambda>(kind, imports1).
             andThen (walk source sink e imports1) (\<lambda>(b, imports2).
               Done (head @ sink @ '' = new('' @ kind @ '')'' @ NL @ TAB @
                     ''*'' @ sink @ '' = *'' @ source @ NL @ b @ ''}'' @ NL, imports2))))"

text \<open>The case \<^verbatim>\<open>*types.Chan\<close> (lines 393-399).\<close>

definition chanCase ::
  "world \<Rightarrow> string \<Rightarrow> string \<Rightarrow> string \<Rightarrow> ty \<Rightarrow> importsTable \<Rightarrow> (string \<times> importsTable) outcome" where
  "chanCase W source sink x e imports =
     andThen (getElemType W e x imports False) (\<lambda>(kind, imports1).
       Done (''if '' @ source @ '' != nil {'' @ NL @ TAB @ sink @ '' = make(chan '' @ kind @
             '', cap('' @ source @ ''))'' @ NL @ ''}'' @ NL, imports1))"

text \<open>
  The case \<^verbatim>\<open>*types.Map\<close> (lines 400-450). One test of the selector sets both
  \<^verbatim>\<open>skipKey\<close> and \<^verbatim>\<open>skipValue\<close> (lines 409-413).
\<close>

definition mapCase ::
  "world \<Rightarrow> walker \<Rightarrow> string \<Rightarrow> string \<Rightarrow> string \<Rightarrow> ty \<Rightarrow> ty \<Rightarrow> importsTable \<Rightarrow> string set \<Rightarrow> bool
     \<Rightarrow> (string \<times> importsTable) outcome" where
  "mapCase W walk source sink x key e imports skips initial =
     andThen (getElemType W key x imports False) (\<lambda>(kkind, imports1).
     andThen (getElemType W e x imports1 False) (\<lambda>(vkind, imports2).
       let sel = afterFirstDot (if initial then ''[k]'' else sink @ ''[k]'');
           skipKey = (sel \<in> skips);
           skipValue = (sel \<in> skips);
           head = ''if '' @ source @ '' != nil {'' @ NL @ TAB @ sink @ '' = make(map['' @ kkind @
                  '']'' @ vkind @ '', len('' @ source @ ''))'' @ NL @ TAB @
                  ''for k, v := range '' @ source @ '' {'' @ NL;
           copyKSink = selToIdent sink @ ''_k'';
           copyVSink = selToIdent sink @ ''_v''
       in andThen (if skipKey then Done ([], imports2)
                   else walk ''k'' copyKSink key imports2) (\<lambda>(bk, imports3).
          andThen (if skipValue then Done ([], imports3)
                   else walk ''v'' copyVSink e imports3) (\<lambda>(bv, imports4).
            Done (head @
                  (if bk \<noteq> [] then ''var '' @ copyKSink @ '' '' @ kkind @ NL @ bk else []) @
                  (if bv \<noteq> [] then ''var '' @ copyVSink @ '' '' @ vkind @ NL @ bv else []) @
                  sink @ ''['' @ (if bk \<noteq> [] then copyKSink else ''k'') @ ''] = '' @
                  (if bv \<noteq> [] then copyVSink else ''v'') @ ''}'' @ NL @ ''}'' @ NL, imports4)))))"

text \<open>
  \<^verbatim>\<open>needExported\<close> (lines 314-320) and the test of line 322, which asks the Capability
  Detector about the type itself unless the walk is at the top level.
\<close>

definition needExported :: "world \<Rightarrow> string \<Rightarrow> ty \<Rightarrow> bool" where
  "needExported W x m =
     (case m of
        Named k \<Rightarrow> (case obj_pkg (named W k) of Some (pname, ppath) \<Rightarrow> pname \<noteq> x | None \<Rightarrow> False)
      | _ \<Rightarrow> False)"

definition reuseSelf :: "world \<Rightarrow> string \<Rightarrow> string \<Rightarrow> ty \<Rightarrow> nat list \<Rightarrow> bool \<Rightarrow> bool \<times> string" where
  "reuseSelf W source sink m generating initial =
     (if methoder m \<and> \<not> initial then reuseDeepCopy W source sink m False generating
      else (False, []))"

text \<open>
  The case \<^verbatim>\<open>*types.Struct\<close> (lines 328-341): the loop over the fields, from a given
  field on. \<open>exportedOnly\<close> is the value of \<^verbatim>\<open>needExported\<close>.
\<close>

fun structCase ::
  "walker \<Rightarrow> string \<Rightarrow> string \<Rightarrow> bool \<Rightarrow> (string \<times> ty \<times> bool) list \<Rightarrow> importsTable \<Rightarrow> string set
     \<Rightarrow> (string \<times> importsTable) outcome" where
  "structCase walk source sink exportedOnly [] imports skips = Done ([], imports)"
| "structCase walk source sink exportedOnly ((fname, ftype, exported) # fs) imports skips =
     (if exportedOnly \<and> \<not> exported then
        structCase walk source sink exportedOnly fs imports skips
      else if afterFirstDot (sink @ ''.'' @ fname) \<in> skips then
        structCase walk source sink exportedOnly fs imports skips
      else
        andThen (walk (source @ ''.'' @ fname) (sink @ ''.'' @ fname) ftype imports)
          (\<lambda>(b, imports1).
             andThen (structCase walk source sink exportedOnly fs imports1 skips)
               (\<lambda>(bs, imports2). Done (b @ bs, imports2))))"

text \<open>\<^verbatim>\<open>walkType\<close> itself: the test of line 322, then the \<^verbatim>\<open>switch\<close> of line 327.\<close>

fun walkType ::
  "world \<Rightarrow> nat \<Rightarrow> string \<Rightarrow> string \<Rightarrow> string \<Rightarrow> ty \<Rightarrow> importsTable \<Rightarrow> string set \<Rightarrow> nat list \<Rightarrow> bool
     \<Rightarrow> (string \<times> importsTable) outcome" where
  "walkType W 0 source sink x m imports skips generating initial = OutOfFuel"
| "walkType W (Suc n) source sink x m imports skips generating initial =
     (if fst (reuseSelf W source sink m generating initial)
      then Done (snd (reuseSelf W source sink m generating initial), imports)
      else
        (case Underlying W m of
           Struct fs \<Rightarrow>
             structCase (\<lambda>src snk t imps. walkType W n src snk x t imps skips generating False)
               source sink (needExported W x m) fs imports skips
         | Slice e \<Rightarrow>
             sliceCase W (\<lambda>src snk t imps. walkType W n src snk x t imps skips generating False)
               source sink x e imports skips initial
         | Pointer e \<Rightarrow>
             pointerCase W (\<lambda>src snk t imps. walkType W n src snk x t imps skips generating False)
               source sink x e imports generating initial
         | Chan e \<Rightarrow> chanCase W source sink x e imports
         | Map key e \<Rightarrow>
             mapCase W (\<lambda>src snk t imps. walkType W n src snk x t imps skips generating False)
               source sink x key e imports skips initial
         | _ \<Rightarrow> Done ([], imports)))"

section \<open>Generating an operation, the file, the run\<close>

text \<open>
  \<^verbatim>\<open>generateFunc\<close> (lines 190-214). \<open>obj\<close> is the declaration of the requested type,
  \<open>pname\<close> is \<^verbatim>\<open>p.Name\<close>, \<open>pointer\<close> the run-wide option \<^verbatim>\<open>-pointer-receiver\<close>.
\<close>

definition generateFunc ::
  "world \<Rightarrow> nat \<Rightarrow> string \<Rightarrow> nat \<Rightarrow> importsTable \<Rightarrow> string set \<Rightarrow> bool \<Rightarrow> nat list
     \<Rightarrow> (string \<times> importsTable) outcome" where
  "generateFunc W fuel pname obj imports skips pointer generating =
     (let ptr = (if pointer then ''*'' else []);
          kind = obj_name (named W obj);
          source = ''o'';
          head = ''// DeepCopy generates a deep copy of '' @ ptr @ kind @ NL @
                 ''func (o '' @ ptr @ kind @ '') DeepCopy() '' @ ptr @ kind @ '' {'' @ NL @
                 TAB @ ''var cp '' @ kind @ '' = '' @ ptr @ source @ NL
      in andThen (walkType W fuel source ''cp'' pname (Named obj) imports skips generating True)
           (\<lambda>(body, imports1).
              Done (head @ body @ (if pointer then ''return &cp'' @ NL @ ''}'' else ''return cp'' @ NL @ ''}''),
                    imports1)))"

text \<open>
  \<^verbatim>\<open>generateFile\<close> (lines 216-244). \<open>fileText\<close> is the buffer \<^verbatim>\<open>file\<close> when
  \<^verbatim>\<open>format.Source\<close> is called. Go leaves the order of a loop over a map open; the model
  takes the entries in the order of the association list.
\<close>

fun joinWith :: "string \<Rightarrow> string list \<Rightarrow> string" where
  "joinWith sep [] = []"
| "joinWith sep [a] = a"
| "joinWith sep (a # b # r) = a @ sep @ joinWith sep (b # r)"

definition hasSuffix :: "string \<Rightarrow> string \<Rightarrow> bool" where
  "hasSuffix s suffix = (length suffix \<le> length s \<and> drop (length s - length suffix) s = suffix)"

definition importLine :: "world \<Rightarrow> string \<times> string \<Rightarrow> string" where
  "importLine W entry =
     (case entry of (name, path) \<Rightarrow>
        if hasSuffix path name then quote W path @ NL
        else name @ '' '' @ quote W path @ NL)"

definition fileText :: "world \<Rightarrow> string \<Rightarrow> importsTable \<Rightarrow> string list \<Rightarrow> string" where
  "fileText W pname imports fn =
     ''// generated by '' @ joinWith '' '' (os_args W) @ ''; DO NOT EDIT.'' @ NL @ NL @
     ''package '' @ pname @ NL @ NL @
     (if length imports > 0 then
        ''import ('' @ NL @ concat (map (importLine W) imports) @ '')'' @ NL
      else []) @
     concat (map (\<lambda>f. f @ NL @ NL) fn)"

definition generateFile :: "world \<Rightarrow> string \<Rightarrow> importsTable \<Rightarrow> string list \<Rightarrow> string + string" where
  "generateFile W pname imports fn =
     (case format_source W (fileText W pname imports fn) of
        Inl err \<Rightarrow>
          Inl (''error formatting source: '' @ err @ NL @ ''source:'' @ NL @
               fileText W pname imports fn)
      | Inr b \<Rightarrow> Inr b)"

text \<open>\<^verbatim>\<open>exprFilter\<close> (lines 295-307) and \<^verbatim>\<open>locateType\<close> (lines 261-275).\<close>

definition exprFilter :: "world \<Rightarrow> ty \<Rightarrow> string \<Rightarrow> string \<Rightarrow> nat option" where
  "exprFilter W t sel x =
     (case objFromType t of
        None \<Rightarrow> None
      | Some k \<Rightarrow>
          (case obj_pkg (named W k) of
             None \<Rightarrow> None
           | Some (pname, ppath) \<Rightarrow>
               if x \<noteq> pname \<or> sel \<noteq> obj_name (named W k) then None else Some k))"

fun locateIn :: "world \<Rightarrow> string \<Rightarrow> string \<Rightarrow> ty option list \<Rightarrow> string + nat" where
  "locateIn W x sel [] = Inl ''type not found''"
| "locateIn W x sel (None # ds) = locateIn W x sel ds"
| "locateIn W x sel (Some t # ds) =
     (case exprFilter W t sel x of
        None \<Rightarrow> locateIn W x sel ds
      | Some m \<Rightarrow> Inr m)"

definition locateType :: "world \<Rightarrow> string \<Rightarrow> string \<Rightarrow> package \<Rightarrow> string + nat" where
  "locateType W x sel p = locateIn W x sel (defs p)"

text \<open>
  \<^verbatim>\<open>run\<close> (lines 141-182). \<open>locateAll\<close> is the first loop (lines 154-160),
  \<open>generateAll\<close> the second (lines 162-174), from the request with index \<open>i\<close> on.
\<close>

fun locateAll :: "world \<Rightarrow> package \<Rightarrow> string list \<Rightarrow> string + nat list" where
  "locateAll W p [] = Inr []"
| "locateAll W p (kind # kinds) =
     (case locateType W (pkg_name p) kind p of
        Inl err \<Rightarrow>
          Inl (''locating type '' @ quote W kind @ '' in '' @ quote W (pkg_name p) @ '': '' @ err)
      | Inr obj \<Rightarrow>
          (case locateAll W p kinds of
             Inl e \<Rightarrow> Inl e
           | Inr objs \<Rightarrow> Inr (obj # objs)))"

fun generateAll ::
  "world \<Rightarrow> nat \<Rightarrow> string \<Rightarrow> nat list \<Rightarrow> nat \<Rightarrow> importsTable \<Rightarrow> string set list \<Rightarrow> bool \<Rightarrow> nat list
     \<Rightarrow> (string list \<times> importsTable) outcome" where
  "generateAll W fuel pname [] i imports skips pointer generating = Done ([], imports)"
| "generateAll W fuel pname (obj # objs) i imports skips pointer generating =
     andThen (generateFunc W fuel pname obj imports (if i < length skips then skips ! i else {})
                pointer generating)
       (\<lambda>(fn, imports1).
          andThen (generateAll W fuel pname objs (Suc i) imports1 skips pointer generating)
            (\<lambda>(fns, imports2). Done (fn # fns, imports2)))"

definition run ::
  "world \<Rightarrow> nat \<Rightarrow> string \<Rightarrow> string list \<Rightarrow> string set list \<Rightarrow> bool \<Rightarrow> (string + string) outcome" where
  "run W fuel path types skips pointer =
     (case load W path of
        Inl err \<Rightarrow> Done (Inl (''loading package: '' @ err))
      | Inr packages \<Rightarrow>
          if length packages = 0 then Done (Inl ''no package found'')
          else
            (case locateAll W (hd packages) types of
               Inl err \<Rightarrow> Done (Inl err)
             | Inr objs \<Rightarrow>
                 andThen (generateAll W fuel (pkg_name (hd packages)) objs 0 [] skips pointer objs)
                   (\<lambda>(fns, imports).
                      (case generateFile W (pkg_name (hd packages)) imports fns of
                         Inl err \<Rightarrow> Done (Inl (''generating file content: '' @ err))
                       | Inr b \<Rightarrow> Done (Inr b)))))"

section \<open>The output destination and the program\<close>

text \<open>
  \<^verbatim>\<open>outputVal\<close> (lines 64-107). What the program does to the file system is recorded
  as a list of events, oldest first. \<^verbatim>\<open>Set\<close> is called by \<^verbatim>\<open>flag.Parse\<close> once for
  every \<^verbatim>\<open>-o\<close> on the command line; \<^verbatim>\<open>Open\<close> is called by \<^verbatim>\<open>main\<close>.
\<close>

datatype handle = Stdout | File string

record outputVal =
  out_file :: "handle option"
  out_name :: string

datatype event = OpenFile string | CloseFile handle | Truncate handle | WriteBytes handle string

definition outputSet :: "world \<Rightarrow> string \<Rightarrow> outputVal \<Rightarrow> string option \<times> outputVal \<times> event list" where
  "outputSet W v f =
     (if v = ''-'' \<or> v = [] then
        (None, f\<lparr>out_name := ''stdout'', out_file := None\<rparr>,
         (case out_file f of Some h \<Rightarrow> [CloseFile h] | None \<Rightarrow> []))
      else if \<not> open_file W v then (Some (''opening file: '' @ v), f, [])
      else (None, f\<lparr>out_name := v, out_file := Some (File v)\<rparr>, [OpenFile v]))"

definition outputOpen :: "world \<Rightarrow> outputVal \<Rightarrow> (string + handle) \<times> outputVal \<times> event list" where
  "outputOpen W f =
     (case out_file f of
        None \<Rightarrow> (Inr Stdout, f\<lparr>out_file := Some Stdout\<rparr>, [])
      | Some h \<Rightarrow>
          (case truncate_error W of
             Some err \<Rightarrow> (Inl err, f, [])
           | None \<Rightarrow> (Inr h, f, [Truncate h])))"

text \<open>
  The command line as \<^verbatim>\<open>flag.Parse\<close> reads it: the values of the repeated options, and
  the positional arguments. \<open>parseOutputs\<close> is the effect of \<^verbatim>\<open>flag.Parse\<close> on
  \<^verbatim>\<open>outputF\<close>: a \<^verbatim>\<open>Set\<close> that fails ends the program there with status 2. The other
  ways in which \<^verbatim>\<open>flag.Parse\<close> itself ends the program (\<^verbatim>\<open>-h\<close>, an option that is not
  defined) are not command lines of this record.

  The program ends by leaving with a status and a message (\<^verbatim>\<open>log.Fatalln\<close> leaves with
  status 1, the end of \<^verbatim>\<open>main\<close> with 0), by a panic, or not within the bound. The
  message is what \<^verbatim>\<open>log.Fatalln\<close> is given, its operands separated by a space, without
  the time stamp in front and the newline at the end.
\<close>

record flags =
  typesF :: "string list"
  skipsF :: "string set list"
  pointerReceiverF :: bool
  outputs :: "string list"
  positional :: "string list"

datatype ending = Exit nat string | Crash | Unfinished

fun parseOutputs :: "world \<Rightarrow> string list \<Rightarrow> outputVal \<Rightarrow> string option \<times> outputVal \<times> event list" where
  "parseOutputs W [] f = (None, f, [])"
| "parseOutputs W (v # vs) f =
     (case outputSet W v f of
        (Some err, f1, ev) \<Rightarrow>
          (Some (''invalid value '' @ quote W v @ '' for flag -o: '' @ err), f1, ev)
      | (None, f1, ev) \<Rightarrow>
          (case parseOutputs W vs f1 of (r, f2, ev2) \<Rightarrow> (r, f2, ev @ ev2)))"

text \<open>\<^verbatim>\<open>main\<close> (lines 115-139): the events, and how the program ends.\<close>

definition main :: "world \<Rightarrow> nat \<Rightarrow> flags \<Rightarrow> event list \<times> ending" where
  "main W fuel fl =
     (case parseOutputs W (outputs fl) \<lparr>out_file = None, out_name = []\<rparr> of
        (Some err, outputF, ev) \<Rightarrow> (ev, Exit 2 err)
      | (None, outputF, ev) \<Rightarrow>
          if length (typesF fl) = 0 \<or> hd (typesF fl) = [] then (ev, Exit 1 ''no type given'')
          else if length (positional fl) \<noteq> 1 then (ev, Exit 1 ''No package path given'')
          else
            (case run W fuel (hd (positional fl)) (typesF fl) (skipsF fl) (pointerReceiverF fl) of
               Panic \<Rightarrow> (ev, Crash)
             | OutOfFuel \<Rightarrow> (ev, Unfinished)
             | Done (Inl err) \<Rightarrow> (ev, Exit 1 (''Error generating deep copy method: '' @ err))
             | Done (Inr b) \<Rightarrow>
                 (case outputOpen W outputF of
                    (Inl err, outputF1, ev1) \<Rightarrow>
                      (ev @ ev1, Exit 1 (''Error initializing output file: '' @ err))
                  | (Inr output, outputF1, ev1) \<Rightarrow>
                      (case write_error W of
                         Some err \<Rightarrow>
                           (ev @ ev1, Exit 1 (''Error writing result to file: '' @ err))
                       | None \<Rightarrow>
                           (ev @ ev1 @ [WriteBytes output b, CloseFile output], Exit 0 [])))))"

section \<open>A type model for the examples\<close>

text \<open>
  The declarations the examples use, all of package \<^verbatim>\<open>demo\<close> but 8, 9 and 10; the
  packages \<^verbatim>\<open>z/b\<close> and \<^verbatim>\<open>a/b\<close> are both called \<^verbatim>\<open>b\<close>:
  \<^verbatim>\<open>
  0  type A struct { Next *B }
  1  type B struct { Prev *A }
  2  type T struct { N int };     func (t T) DeepCopy() []T
  3  type Node struct { Next *Node }
  4  type Arr [4]*int;            func (a Arr) DeepCopy() Arr
  5  type P struct { Next *Q; Loop *Node }
  6  type Q struct { Prev *P }
  7  type Holder struct { F Arr; M map[*int]*int; S []*int; G [4]*int }
  8  type V struct{}   in package a_b, path x/a_b
  9  type X struct{}   in package b, path z/b
  10 type Y struct{}   in package b, path a/b
  11 type Val struct { N int };   func (v Val) DeepCopy() Val
  12 type Ptr struct { N int };   func (p *Ptr) DeepCopy() *Ptr
  13 type L []*int;               func (l L) DeepCopy() L
  14 type Mixed struct { V1 *a_b.V; X *b.X; Y *b.Y; V2 *a_b.V }
  15 type Tree struct { Kids []*Leaf; Tag Tag }
  16 type Leaf struct { Up map[string]*Tree }
  17 type Tag struct { Name *string }
  \<close>
  \<open>exampleString\<close> prints the unnamed descriptors of the examples as the host does.
\<close>

definition demoPkg :: "(string \<times> string) option" where
  "demoPkg = Some (''demo'', ''example.com/demo'')"

fun exampleString :: "ty \<Rightarrow> string" where
  "exampleString (Basic s) = s"
| "exampleString (Pointer t) = ''*'' @ exampleString t"
| "exampleString (Slice t) = ''[]'' @ exampleString t"
| "exampleString (Chan t) = ''chan '' @ exampleString t"
| "exampleString (Map k t) = ''map['' @ exampleString k @ '']'' @ exampleString t"
| "exampleString t = ''T''"

definition exampleDecl :: "nat \<Rightarrow> decl" where
  "exampleDecl k =
     (if k = 0 then
        \<lparr>obj_pkg = demoPkg, obj_name = ''A'',
         underlying = Struct [(''Next'', Pointer (Named 1), True)], methods = []\<rparr>
      else if k = 1 then
        \<lparr>obj_pkg = demoPkg, obj_name = ''B'',
         underlying = Struct [(''Prev'', Pointer (Named 0), True)], methods = []\<rparr>
      else if k = 2 then
        \<lparr>obj_pkg = demoPkg, obj_name = ''T'',
         underlying = Struct [(''N'', Basic ''int'', True)],
         methods = [(''DeepCopy'', Signature (Named 2) [] [Slice (Named 2)])]\<rparr>
      else if k = 3 then
        \<lparr>obj_pkg = demoPkg, obj_name = ''Node'',
         underlying = Struct [(''Next'', Pointer (Named 3), True)], methods = []\<rparr>
      else if k = 4 then
        \<lparr>obj_pkg = demoPkg, obj_name = ''Arr'',
         underlying = Array 4 (Pointer (Basic ''int'')),
         methods = [(''DeepCopy'', Signature (Named 4) [] [Named 4])]\<rparr>
      else if k = 5 then
        \<lparr>obj_pkg = demoPkg, obj_name = ''P'',
         underlying = Struct [(''Next'', Pointer (Named 6), True), (''Loop'', Pointer (Named 3), True)],
         methods = []\<rparr>
      else if k = 6 then
        \<lparr>obj_pkg = demoPkg, obj_name = ''Q'',
         underlying = Struct [(''Prev'', Pointer (Named 5), True)], methods = []\<rparr>
      else if k = 7 then
        \<lparr>obj_pkg = demoPkg, obj_name = ''Holder'',
         underlying = Struct [(''F'', Named 4, True),
                              (''M'', Map (Pointer (Basic ''int'')) (Pointer (Basic ''int'')), True),
                              (''S'', Slice (Pointer (Basic ''int'')), True),
                              (''G'', Array 4 (Pointer (Basic ''int'')), True)],
         methods = []\<rparr>
      else if k = 8 then
        \<lparr>obj_pkg = Some (''a_b'', ''x/a_b''), obj_name = ''V'', underlying = Struct [], methods = []\<rparr>
      else if k = 9 then
        \<lparr>obj_pkg = Some (''b'', ''z/b''), obj_name = ''X'', underlying = Struct [], methods = []\<rparr>
      else if k = 10 then
        \<lparr>obj_pkg = Some (''b'', ''a/b''), obj_name = ''Y'', underlying = Struct [], methods = []\<rparr>
      else if k = 11 then
        \<lparr>obj_pkg = demoPkg, obj_name = ''Val'',
         underlying = Struct [(''N'', Basic ''int'', True)],
         methods = [(''DeepCopy'', Signature (Named 11) [] [Named 11])]\<rparr>
      else if k = 12 then
        \<lparr>obj_pkg = demoPkg, obj_name = ''Ptr'',
         underlying = Struct [(''N'', Basic ''int'', True)],
         methods = [(''DeepCopy'', Signature (Pointer (Named 12)) [] [Pointer (Named 12)])]\<rparr>
      else if k = 13 then
        \<lparr>obj_pkg = demoPkg, obj_name = ''L'',
         underlying = Slice (Pointer (Basic ''int'')),
         methods = [(''DeepCopy'', Signature (Named 13) [] [Named 13])]\<rparr>
      else if k = 14 then
        \<lparr>obj_pkg = demoPkg, obj_name = ''Mixed'',
         underlying = Struct [(''V1'', Pointer (Named 8), True), (''X'', Pointer (Named 9), True),
                              (''Y'', Pointer (Named 10), True), (''V2'', Pointer (Named 8), True)],
         methods = []\<rparr>
      else if k = 15 then
        \<lparr>obj_pkg = demoPkg, obj_name = ''Tree'',
         underlying = Struct [(''Kids'', Slice (Pointer (Named 16)), True),
                              (''Tag'', Named 17, True)],
         methods = []\<rparr>
      else if k = 16 then
        \<lparr>obj_pkg = demoPkg, obj_name = ''Leaf'',
         underlying = Struct [(''Up'', Map (Basic ''string'') (Pointer (Named 15)), True)],
         methods = []\<rparr>
      else
        \<lparr>obj_pkg = demoPkg, obj_name = ''Tag'',
         underlying = Struct [(''Name'', Pointer (Basic ''string''), True)],
         methods = []\<rparr>)"

definition examplePackage :: package where
  "examplePackage = \<lparr>pkg_name = ''demo'', defs = map (\<lambda>k. Some (Named k)) [0, 1, 2, 3, 4, 5, 6, 7, 11, 12, 13, 14, 15, 16, 17]\<rparr>"

text \<open>
  In the example world every file opens, no write fails, and the formatter accepts
  every text and returns it as it is; \<open>rejectingWorld\<close> has a formatter that accepts
  nothing.
\<close>

definition exampleWorld :: world where
  "exampleWorld =
     \<lparr>named = exampleDecl, type_string = exampleString,
      quote = (\<lambda>s. [CHR 0x22] @ s @ [CHR 0x22]),
      format_source = (\<lambda>s. Inr s),
      load = (\<lambda>path. if path = ''./demo'' then Inr [examplePackage] else Inl ''no such directory''),
      os_args = [''deep-copy'', ''--type'', ''A'', ''./demo''],
      open_file = (\<lambda>path. True),
      truncate_error = None,
      write_error = None\<rparr>"

definition rejectingWorld :: world where
  "rejectingWorld = exampleWorld\<lparr>format_source := (\<lambda>s. Inl ''1:1: expected declaration'')\<rparr>"

text \<open>
  The command line \<^verbatim>\<open>deep-copy --type A --type B -o out.go ./demo\<close>.
\<close>

definition exampleFlags :: flags where
  "exampleFlags =
     \<lparr>typesF = [''A'', ''B''], skipsF = [], pointerReceiverF = False, outputs = [''out.go''],
      positional = [''./demo'']\<rparr>"

section \<open>Notions used by the properties\<close>

text \<open>
  The underlying kinds for which the \<^verbatim>\<open>switch\<close> of \<^verbatim>\<open>walkType\<close> has a case.
\<close>

fun deepKind :: "ty \<Rightarrow> bool" where
  "deepKind (Struct fs) = True"
| "deepKind (Slice e) = True"
| "deepKind (Pointer e) = True"
| "deepKind (Chan e) = True"
| "deepKind (Map k e) = True"
| "deepKind t = False"






text \<open>
  For the Reference Table: \<open>consistentPackages\<close> says that a package path has one
  package name in the type model, as in every Go program. \<open>oneAliasPerPath\<close> says that
  the table has one entry per alias and that no two aliases stand for the same path.
  \<open>aliasInv\<close> adds where an entry comes from: its alias is the name of a package with its
  path, or the flattened path of such a package whose name is bound as well.
\<close>

definition consistentPackages :: "world \<Rightarrow> bool" where
  "consistentPackages W =
     (\<forall>j k n1 n2 p. obj_pkg (named W j) = Some (n1, p) \<and> obj_pkg (named W k) = Some (n2, p)
        \<longrightarrow> n1 = n2)"

definition oneAliasPerPath :: "importsTable \<Rightarrow> bool" where
  "oneAliasPerPath T =
     (distinct (map fst T) \<and>
      (\<forall>a b p. map_of T a = Some p \<and> map_of T b = Some p \<longrightarrow> a = b))"

definition aliasInv :: "world \<Rightarrow> importsTable \<Rightarrow> bool" where
  "aliasInv W T =
     (oneAliasPerPath T \<and>
      (\<forall>a p. map_of T a = Some p \<longrightarrow>
         (\<exists>k n. obj_pkg (named W k) = Some (n, p) \<and>
                (a = n \<or> (a = flattenPath p \<and> map_of T n \<noteq> None)))))"

section \<open>Auxiliary facts\<close>

lemma fst_reuseDeepCopy:
  "fst (reuseDeepCopy W source sink v pointer generating) = fst (hasDeepCopy W v generating pointer)"
  by (simp add: reuseDeepCopy_def split: prod.splits)

lemma reuseSelf_not:
  "initial \<or> \<not> methoder m \<or> \<not> fst (hasDeepCopy W m generating False) \<Longrightarrow>
   fst (reuseSelf W source sink m generating initial) = False"
  by (auto simp: reuseSelf_def fst_reuseDeepCopy)

section \<open>The Capability Detector on members of the Generation Set\<close>

text \<open>
  Claim C1. For a type that is identical to a member of the Generation Set, the
  Capability Detector should report a capability whose shape is the shape configured for
  the run (the option \<^verbatim>\<open>-pointer-receiver\<close>), whatever shape the call site asks for:
  that is the shape \<^verbatim>\<open>generateFunc\<close> gives the operation it writes for the member.

  \<^verbatim>\<open>hasDeepCopy\<close> returns its argument \<^verbatim>\<open>pointer\<close> for a member, and
  \<^verbatim>\<open>reuseDeepCopy\<close> passes its own \<^verbatim>\<open>pointer\<close> there, which is the shape of the call
  site (\<^verbatim>\<open>true\<close> at line 382, \<^verbatim>\<open>false\<close> at line 322); the option of the run never
  reaches the detector. The theorem evaluates the code on \<^verbatim>\<open>A{Next *B}\<close>,
  \<^verbatim>\<open>B{Prev *A}\<close>, requested together in a run with value receivers: for \<^verbatim>\<open>B\<close> the
  detector answers with the shape it was asked with, and the operation written for
  \<^verbatim>\<open>A\<close> assigns the result of \<^verbatim>\<open>o.Next.DeepCopy()\<close>, which the operation written for
  \<^verbatim>\<open>B\<close> declares as a \<^verbatim>\<open>B\<close>, to the field \<^verbatim>\<open>cp.Next\<close> of type \<^verbatim>\<open>*B\<close>, with none
  of the two reconciliations of \<^verbatim>\<open>reuseDeepCopy\<close>.
\<close>

theorem hasDeepCopy_member_answers_call_site_shape:
  "hasDeepCopy exampleWorld (Named 1) [0, 1] True = (True, True) \<and>
   hasDeepCopy exampleWorld (Named 1) [0, 1] False = (True, False) \<and>
   generateFunc exampleWorld 3 ''demo'' 0 [] {} False [0, 1] =
     Done (''// DeepCopy generates a deep copy of A'' @ NL @
           ''func (o A) DeepCopy() A {'' @ NL @
           TAB @ ''var cp A = o'' @ NL @
           ''if o.Next != nil {'' @ NL @
           ''cp.Next = o.Next.DeepCopy()'' @ NL @
           ''}'' @ NL @
           ''return cp'' @ NL @ ''}'', []) \<and>
   generateFunc exampleWorld 3 ''demo'' 1 [] {} False [0, 1] =
     Done (''// DeepCopy generates a deep copy of B'' @ NL @
           ''func (o B) DeepCopy() B {'' @ NL @
           TAB @ ''var cp B = o'' @ NL @
           ''if o.Prev != nil {'' @ NL @
           ''cp.Prev = o.Prev.DeepCopy()'' @ NL @
           ''}'' @ NL @
           ''return cp'' @ NL @ ''}'', [])"
  by code_simp

section \<open>The Capability Detector on declared operations\<close>

text \<open>
  Claim C3. For a type outside the Generation Set the detector should report a
  capability exactly when the type declares \<^verbatim>\<open>DeepCopy\<close> with no parameter and one
  result whose type, reduced through at most one indirection, is the reduced receiver
  type; the shape is whether the result type was an indirection.

  \<^verbatim>\<open>reducePointer\<close> reduces every descriptor that has \<^verbatim>\<open>Elem()\<close>, so a slice, an
  array, a map or a channel of the receiver type passes for an indirection to it. The
  theorem evaluates the code on \<^verbatim>\<open>type T struct{ N int }\<close> with
  \<^verbatim>\<open>func (t T) DeepCopy() []T\<close>: the result type reduces to \<^verbatim>\<open>T\<close>, the detector
  reports a capability of indirection shape, and the walk of a field \<^verbatim>\<open>F T\<close> writes
  \<^verbatim>\<open>cp.F = *retV\<close> for a \<^verbatim>\<open>retV\<close> that is a slice.
\<close>

theorem hasDeepCopy_accepts_slice_result:
  "reducePointer (Slice (Named 2)) = (Named 2, True) \<and>
   Methods exampleWorld (Named 2) = [(''DeepCopy'', Signature (Named 2) [] [Slice (Named 2)])] \<and>
   hasDeepCopy exampleWorld (Named 2) [] False = (True, True) \<and>
   walkType exampleWorld 1 ''o.F'' ''cp.F'' ''demo'' (Named 2) [] {} [] False =
     Done (''{'' @ NL @ TAB @ ''retV := o.F.DeepCopy()'' @ NL @ TAB @ ''cp.F = *retV'' @ NL @
           ''}'' @ NL, [])"
  by code_simp

section \<open>Reuse of a detected capability\<close>

text \<open>
  Claim C4. Whenever a capability is detected on a type that is not at the top level, the
  walk should write a call of it and nothing else, wrap a value-shaped result that goes
  to an indirection target, and dereference an indirection-shaped result that goes to a
  value target.

  \<^verbatim>\<open>reuseDeepCopy\<close> compares the shape of the target with the shape the detector
  reports, and for a member of the Generation Set the detector reports the shape of the
  target itself, so the two always agree and nothing is reconciled. The theorem
  evaluates the code on \<^verbatim>\<open>A{Next *B}\<close>, \<^verbatim>\<open>B{Prev *A}\<close>, requested together. In a run
  with value receivers the operation written for \<^verbatim>\<open>B\<close> returns a \<^verbatim>\<open>B\<close>, and the
  walk of the field \<^verbatim>\<open>Next *B\<close> assigns the result of the call to \<^verbatim>\<open>cp.Next\<close> as it
  is; for \<^verbatim>\<open>Val\<close>, which is outside the set and declares \<^verbatim>\<open>DeepCopy() Val\<close>, the
  same walk wraps the result through \<^verbatim>\<open>&retV\<close>. In a run with indirection receivers
  the operation written for \<^verbatim>\<open>B\<close> returns a \<^verbatim>\<open>*B\<close>, and the walk of a target of type
  \<^verbatim>\<open>B\<close> assigns the result of the call as it is; for \<^verbatim>\<open>Ptr\<close>, which is outside the
  set and declares \<^verbatim>\<open>DeepCopy() *Ptr\<close>, the same walk dereferences the result through
  \<^verbatim>\<open>*retV\<close>. The text written for the member does not compile in either run.
\<close>

theorem member_result_is_not_reconciled:
  "walkType exampleWorld 1 ''o.Next'' ''cp.Next'' ''demo'' (Pointer (Named 1)) [] {} [0, 1] False =
     Done (''if o.Next != nil {'' @ NL @ ''cp.Next = o.Next.DeepCopy()'' @ NL @ ''}'' @ NL, []) \<and>
   reuseDeepCopy exampleWorld ''o.Next'' ''cp.Next'' (Named 1) True [0, 1] =
     (True, ''cp.Next = o.Next.DeepCopy()'' @ NL) \<and>
   generateFunc exampleWorld 3 ''demo'' 1 [] {} False [0, 1] =
     Done (''// DeepCopy generates a deep copy of B'' @ NL @
           ''func (o B) DeepCopy() B {'' @ NL @
           TAB @ ''var cp B = o'' @ NL @
           ''if o.Prev != nil {'' @ NL @
           ''cp.Prev = o.Prev.DeepCopy()'' @ NL @
           ''}'' @ NL @
           ''return cp'' @ NL @ ''}'', []) \<and>
   walkType exampleWorld 1 ''o.F'' ''cp.F'' ''demo'' (Pointer (Named 11)) [] {} [0, 1] False =
     Done (''if o.F != nil {'' @ NL @ ''retV := o.F.DeepCopy()'' @ NL @ TAB @ ''cp.F = &retV'' @ NL @
           ''}'' @ NL, []) \<and>
   walkType exampleWorld 1 ''o.F'' ''cp.F'' ''demo'' (Named 1) [] {} [0, 1] False =
     Done (''cp.F = o.F.DeepCopy()'' @ NL, []) \<and>
   generateFunc exampleWorld 3 ''demo'' 1 [] {} True [0, 1] =
     Done (''// DeepCopy generates a deep copy of *B'' @ NL @
           ''func (o *B) DeepCopy() *B {'' @ NL @
           TAB @ ''var cp B = *o'' @ NL @
           ''if o.Prev != nil {'' @ NL @
           ''cp.Prev = o.Prev.DeepCopy()'' @ NL @
           ''}'' @ NL @
           ''return &cp'' @ NL @ ''}'', []) \<and>
   walkType exampleWorld 1 ''o.F'' ''cp.F'' ''demo'' (Named 12) [] {} [0, 1] False =
     Done (''{'' @ NL @ TAB @ ''retV := o.F.DeepCopy()'' @ NL @ TAB @ ''cp.F = *retV'' @ NL @ ''}'' @ NL, [])"
  by code_simp

text \<open>
  What the walk writes follows the shape the detector reports: at a value target (line
  322) a reported value shape is called and assigned and a reported indirection shape
  is dereferenced through \<^verbatim>\<open>retV\<close>; at the target of an indirection (line 382) a
  reported indirection shape is called and assigned and a reported value shape is
  wrapped through \<^verbatim>\<open>&retV\<close>. The text is the call alone, and the Reference Table is
  left as it is. For a type outside the Generation Set the detector's answer does not
  depend on the shape it is asked with.
\<close>

theorem walkType_reuses_detected_capability:
  "(methoder v \<and> hasDeepCopy W v generating False = (True, isP) \<longrightarrow>
      walkType W (Suc n) source sink x v imports skips generating False =
        Done (if isP then ''{'' @ NL @ TAB @ ''retV := '' @ source @ ''.DeepCopy()'' @ NL @
                          TAB @ sink @ '' = *retV'' @ NL @ ''}'' @ NL
              else sink @ '' = '' @ source @ ''.DeepCopy()'' @ NL, imports)) \<and>
   (Underlying W m = Pointer e \<and> (\<not> methoder m \<or> \<not> fst (hasDeepCopy W m generating False)) \<and>
    methoder e \<and> hasDeepCopy W e generating True = (True, isQ) \<longrightarrow>
      walkType W (Suc n) source sink x m imports skips generating False =
        Done (''if '' @ source @ '' != nil {'' @ NL @
              (if isQ then sink @ '' = '' @ source @ ''.DeepCopy()'' @ NL
               else ''retV := '' @ source @ ''.DeepCopy()'' @ NL @ TAB @ sink @ '' = &retV'' @ NL) @
              ''}'' @ NL, imports)) \<and>
   (\<not> list_ex (\<lambda>t. Identical v (Named t)) generating \<longrightarrow>
      hasDeepCopy W v generating True = hasDeepCopy W v generating False)"
proof (intro conjI impI)
  assume "methoder v \<and> hasDeepCopy W v generating False = (True, isP)"
  then show "walkType W (Suc n) source sink x v imports skips generating False =
        Done (if isP then ''{'' @ NL @ TAB @ ''retV := '' @ source @ ''.DeepCopy()'' @ NL @
                          TAB @ sink @ '' = *retV'' @ NL @ ''}'' @ NL
              else sink @ '' = '' @ source @ ''.DeepCopy()'' @ NL, imports)"
    by (simp add: reuseSelf_def reuseDeepCopy_def)
next
  assume a: "Underlying W m = Pointer e \<and> (\<not> methoder m \<or> \<not> fst (hasDeepCopy W m generating False)) \<and>
    methoder e \<and> hasDeepCopy W e generating True = (True, isQ)"
  then have "fst (reuseSelf W source sink m generating False) = False"
    by (intro reuseSelf_not) blast
  with a show "walkType W (Suc n) source sink x m imports skips generating False =
        Done (''if '' @ source @ '' != nil {'' @ NL @
              (if isQ then sink @ '' = '' @ source @ ''.DeepCopy()'' @ NL
               else ''retV := '' @ source @ ''.DeepCopy()'' @ NL @ TAB @ sink @ '' = &retV'' @ NL) @
              ''}'' @ NL, imports)"
    by (simp add: pointerCase_def reuseDeepCopy_def)
next
  assume "\<not> list_ex (\<lambda>t. Identical v (Named t)) generating"
  then show "hasDeepCopy W v generating True = hasDeepCopy W v generating False"
    by (simp add: hasDeepCopy_def)
qed

theorem walkType_reuses_detected_capability_witness:
  "methoder (Named 12) \<and> hasDeepCopy exampleWorld (Named 12) [0] False = (True, True) \<and>
   walkType exampleWorld 1 ''o.F'' ''cp.F'' ''demo'' (Named 12) [] {} [0] False =
     Done (''{'' @ NL @ TAB @ ''retV := o.F.DeepCopy()'' @ NL @ TAB @ ''cp.F = *retV'' @ NL @ ''}'' @ NL, []) \<and>
   Underlying exampleWorld (Pointer (Named 11)) = Pointer (Named 11) \<and> \<not> methoder (Pointer (Named 11)) \<and>
   methoder (Named 11) \<and> hasDeepCopy exampleWorld (Named 11) [0] True = (True, False) \<and>
   walkType exampleWorld 1 ''o.F'' ''cp.F'' ''demo'' (Pointer (Named 11)) [] {} [0] False =
     Done (''if o.F != nil {'' @ NL @ ''retV := o.F.DeepCopy()'' @ NL @ TAB @ ''cp.F = &retV'' @ NL @ ''}'' @ NL, []) \<and>
   \<not> list_ex (\<lambda>t. Identical (Named 12) (Named t)) [0] \<and>
   hasDeepCopy exampleWorld (Named 12) [0] True = hasDeepCopy exampleWorld (Named 12) [0] False"
proof -
  have a: "methoder (Named 12) \<and> hasDeepCopy exampleWorld (Named 12) [0] False = (True, True)"
    by code_simp
  have b: "Underlying exampleWorld (Pointer (Named 11)) = Pointer (Named 11) \<and>
           (\<not> methoder (Pointer (Named 11)) \<or> \<not> fst (hasDeepCopy exampleWorld (Pointer (Named 11)) [0] False)) \<and>
           methoder (Named 11) \<and> hasDeepCopy exampleWorld (Named 11) [0] True = (True, False)"
    by code_simp
  have c: "\<not> list_ex (\<lambda>t. Identical (Named 12) (Named t)) [0]"
    by code_simp
  show ?thesis
    using walkType_reuses_detected_capability
      [of "Named 12" exampleWorld "[0]" True 0 "''o.F''" "''cp.F''" "''demo''" "[]" "{}"
          "Pointer (Named 11)" "Named 11" False] a b c
    by simp
qed

section \<open>Sequences\<close>

text \<open>
  Claim C6 says that for every sequence met during the walk the allocation and the bulk
  copy are written. The test of line 322 comes before the \<^verbatim>\<open>switch\<close>: for the named
  slice type \<^verbatim>\<open>L\<close> with an operation \<^verbatim>\<open>DeepCopy() L\<close> the walk of a field \<^verbatim>\<open>L L\<close>
  writes a call and no allocation.
\<close>

theorem named_slice_with_capability_is_copied_by_call:
  "Underlying exampleWorld (Named 13) = Slice (Pointer (Basic ''int'')) \<and>
   walkType exampleWorld 1 ''o.L'' ''cp.L'' ''demo'' (Named 13) [] {} [] False =
     Done (''cp.L = o.L.DeepCopy()'' @ NL, [])"
  by code_simp

text \<open>
  Claim C6, amended: for a sequence that the walk reaches in its dispatch (the type is at
  the top level, or it has no methods to ask for, or the detector reports no capability
  on it), the walk writes, under the test that the source is not nil, the allocation of
  a sequence of the length of the source and the bulk copy. If the selector of the
  elements is in the skip set it writes nothing more. Otherwise it walks the element
  type with the placeholder index \<^verbatim>\<open>i\<close>, and writes the loop over the indices around
  the text of that walk exactly when that text is not empty.
\<close>

theorem walkType_slice:
  assumes "Underlying W m = Slice e"
    and "initial \<or> \<not> methoder m \<or> \<not> fst (hasDeepCopy W m generating False)"
    and "getElemType W e x imports False = Done (kind, imports1)"
  shows "walkType W (Suc n) source sink x m imports skips generating initial =
     (if afterFirstDot (if initial then ''[i]'' else sink @ ''[i]'') \<in> skips then
        Done (''if '' @ source @ '' != nil {'' @ NL @ TAB @ sink @ '' = make([]'' @ kind @
              '', len('' @ source @ ''))'' @ NL @ ''copy('' @ sink @ '', '' @ source @ '')'' @ NL @
              ''}'' @ NL, imports1)
      else
        (case walkType W n (source @ ''[i]'') (sink @ ''[i]'') x e imports1 skips generating False of
           Done (b, imports2) \<Rightarrow>
             Done (''if '' @ source @ '' != nil {'' @ NL @ TAB @ sink @ '' = make([]'' @ kind @
                   '', len('' @ source @ ''))'' @ NL @ ''copy('' @ sink @ '', '' @ source @ '')'' @ NL @
                   (if b = [] then []
                    else ''    for i := range '' @ source @ '' {'' @ NL @ b @ ''}'' @ NL) @
                   ''}'' @ NL, imports2)
         | Panic \<Rightarrow> Panic
         | OutOfFuel \<Rightarrow> OutOfFuel))"
proof -
  have "fst (reuseSelf W source sink m generating initial) = False"
    using assms(2) by (rule reuseSelf_not)
  then show ?thesis
    using assms(1,3) by (simp add: sliceCase_def split: outcome.splits)
qed

theorem walkType_slice_witness:
  "Underlying exampleWorld (Slice (Pointer (Basic ''int''))) = Slice (Pointer (Basic ''int'')) \<and>
   \<not> methoder (Slice (Pointer (Basic ''int''))) \<and>
   getElemType exampleWorld (Pointer (Basic ''int'')) ''demo'' [] False = Done (''*int'', []) \<and>
   walkType exampleWorld 3 ''o.S'' ''cp.S'' ''demo'' (Slice (Pointer (Basic ''int''))) [] {} [] False =
     Done (''if o.S != nil {'' @ NL @ TAB @ ''cp.S = make([]*int, len(o.S))'' @ NL @
           ''copy(cp.S, o.S)'' @ NL @
           ''    for i := range o.S {'' @ NL @
           ''if o.S[i] != nil {'' @ NL @ ''cp.S[i] = new(int)'' @ NL @ TAB @ ''*cp.S[i] = *o.S[i]'' @ NL @
           ''}'' @ NL @ ''}'' @ NL @ ''}'' @ NL, [])"
proof -
  have u: "Underlying exampleWorld (Slice (Pointer (Basic ''int''))) = Slice (Pointer (Basic ''int''))"
    by code_simp
  have m: "False \<or> \<not> methoder (Slice (Pointer (Basic ''int''))) \<or>
           \<not> fst (hasDeepCopy exampleWorld (Slice (Pointer (Basic ''int''))) [] False)"
    by simp
  have g: "getElemType exampleWorld (Pointer (Basic ''int'')) ''demo'' [] False = Done (''*int'', [])"
    by code_simp
  have s: "afterFirstDot (''cp.S'' @ ''[i]'') \<notin> {}"
    by simp
  have r: "walkType exampleWorld 2 (''o.S'' @ ''[i]'') (''cp.S'' @ ''[i]'') ''demo'' (Pointer (Basic ''int''))
             [] {} [] False =
           Done (''if o.S[i] != nil {'' @ NL @ ''cp.S[i] = new(int)'' @ NL @ TAB @ ''*cp.S[i] = *o.S[i]'' @ NL @
                 ''}'' @ NL, [])"
    by code_simp
  show ?thesis
    using walkType_slice [OF u m g, of 2 "''o.S''" "''cp.S''" "{}"] u g r
    by simp
qed

section \<open>Kinds without a case\<close>

text \<open>
  Claim C10 says that for every field or element whose underlying type is not a struct,
  slice, pointer, channel or map the walk writes nothing. The test of line 322 comes
  before the \<^verbatim>\<open>switch\<close>: for the named array type \<^verbatim>\<open>Arr\<close> with an operation
  \<^verbatim>\<open>DeepCopy() Arr\<close> the walk of a field \<^verbatim>\<open>F Arr\<close> writes a call.
\<close>

theorem named_array_with_capability_is_copied_by_call:
  "Underlying exampleWorld (Named 4) = Array 4 (Pointer (Basic ''int'')) \<and>
   walkType exampleWorld 1 ''o.F'' ''cp.F'' ''demo'' (Named 4) [] {} [] False =
     Done (''cp.F = o.F.DeepCopy()'' @ NL, [])"
  by code_simp

text \<open>
  Claim C10, amended: for every type that the walk reaches in its dispatch (the type is
  at the top level, or it has no methods to ask for, or the detector reports no
  capability on it) and whose underlying type is not a struct, slice, pointer, channel
  or map, the walk writes nothing and leaves the Reference Table as it is.
\<close>

theorem walkType_other_kinds_emit_nothing:
  assumes "initial \<or> \<not> methoder m \<or> \<not> fst (hasDeepCopy W m generating False)"
    and "\<not> deepKind (Underlying W m)"
  shows "walkType W (Suc n) source sink x m imports skips generating initial = Done ([], imports)"
proof -
  have "fst (reuseSelf W source sink m generating initial) = False"
    using assms(1) by (rule reuseSelf_not)
  then show ?thesis
    using assms(2) by (cases "Underlying W m") simp_all
qed

theorem walkType_other_kinds_witness:
  "\<not> methoder (Array 4 (Pointer (Basic ''int''))) \<and>
   \<not> deepKind (Underlying exampleWorld (Array 4 (Pointer (Basic ''int'')))) \<and>
   walkType exampleWorld 1 ''o.G'' ''cp.G'' ''demo'' (Array 4 (Pointer (Basic ''int''))) [] {} [] False =
     Done ([], [])"
proof -
  have m: "False \<or> \<not> methoder (Array 4 (Pointer (Basic ''int''))) \<or>
           \<not> fst (hasDeepCopy exampleWorld (Array 4 (Pointer (Basic ''int''))) [] False)"
    by simp
  have k: "\<not> deepKind (Underlying exampleWorld (Array 4 (Pointer (Basic ''int''))))"
    by code_simp
  show ?thesis
    using walkType_other_kinds_emit_nothing [OF m k, of 0 "''o.G''" "''cp.G''" "''demo''" "[]" "{}"] k
    by simp
qed

section \<open>Associative containers\<close>

text \<open>
  Claim C2 says that key and value are each tested against a selector of their own, so
  that one can be skipped while the other is deep-copied. There is one test, of the sink
  path followed by \<^verbatim>\<open>[k]\<close>, and it sets both \<^verbatim>\<open>skipKey\<close> and \<^verbatim>\<open>skipValue\<close>: with
  \<^verbatim>\<open>M[k]\<close> in the skip set the walk of \<^verbatim>\<open>M map[*int]*int\<close> copies neither the keys nor
  the values, without it both.
\<close>

theorem map_key_selector_skips_value_too:
  "walkType exampleWorld 3 ''o.M'' ''cp.M'' ''demo''
     (Map (Pointer (Basic ''int'')) (Pointer (Basic ''int''))) [] {''M[k]''} [] False =
     Done (''if o.M != nil {'' @ NL @ TAB @ ''cp.M = make(map[*int]*int, len(o.M))'' @ NL @ TAB @
           ''for k, v := range o.M {'' @ NL @ ''cp.M[k] = v}'' @ NL @ ''}'' @ NL, []) \<and>
   walkType exampleWorld 3 ''o.M'' ''cp.M'' ''demo''
     (Map (Pointer (Basic ''int'')) (Pointer (Basic ''int''))) [] {} [] False =
     Done (''if o.M != nil {'' @ NL @ TAB @ ''cp.M = make(map[*int]*int, len(o.M))'' @ NL @ TAB @
           ''for k, v := range o.M {'' @ NL @
           ''var cp_M_k *int'' @ NL @
           ''if k != nil {'' @ NL @ ''cp_M_k = new(int)'' @ NL @ TAB @ ''*cp_M_k = *k'' @ NL @ ''}'' @ NL @
           ''var cp_M_v *int'' @ NL @
           ''if v != nil {'' @ NL @ ''cp_M_v = new(int)'' @ NL @ TAB @ ''*cp_M_v = *v'' @ NL @ ''}'' @ NL @
           ''cp.M[cp_M_k] = cp_M_v}'' @ NL @ ''}'' @ NL, [])"
  by code_simp

text \<open>
  Claim C2, amended: for a map that the walk reaches in its dispatch, one test decides
  for key and value together. If the sink path followed by \<^verbatim>\<open>[k]\<close> (after its first
  dot) is in the skip set, neither is walked and the entry is inserted as the loop binds
  it. Otherwise the key type and then the value type are walked, each into a temporary
  of its own (\<^verbatim>\<open>_k\<close>, \<^verbatim>\<open>_v\<close> after the sink as an identifier), which is declared and
  used in place of \<^verbatim>\<open>k\<close> or \<^verbatim>\<open>v\<close> exactly when its walk wrote some text.
\<close>

theorem walkType_map:
  assumes "Underlying W m = Map key e"
    and "initial \<or> \<not> methoder m \<or> \<not> fst (hasDeepCopy W m generating False)"
    and "getElemType W key x imports False = Done (kkind, imports1)"
    and "getElemType W e x imports1 False = Done (vkind, imports2)"
  shows "walkType W (Suc n) source sink x m imports skips generating initial =
     (if afterFirstDot (if initial then ''[k]'' else sink @ ''[k]'') \<in> skips then
        Done (''if '' @ source @ '' != nil {'' @ NL @ TAB @ sink @ '' = make(map['' @ kkind @ '']'' @
              vkind @ '', len('' @ source @ ''))'' @ NL @ TAB @ ''for k, v := range '' @ source @
              '' {'' @ NL @ sink @ ''[k] = v}'' @ NL @ ''}'' @ NL, imports2)
      else
        (case walkType W n ''k'' (selToIdent sink @ ''_k'') x key imports2 skips generating False of
           Done (bk, imports3) \<Rightarrow>
             (case walkType W n ''v'' (selToIdent sink @ ''_v'') x e imports3 skips generating False of
                Done (bv, imports4) \<Rightarrow>
                  Done (''if '' @ source @ '' != nil {'' @ NL @ TAB @ sink @ '' = make(map['' @ kkind @
                        '']'' @ vkind @ '', len('' @ source @ ''))'' @ NL @ TAB @
                        ''for k, v := range '' @ source @ '' {'' @ NL @
                        (if bk = [] then [] else ''var '' @ selToIdent sink @ ''_k '' @ kkind @ NL @ bk) @
                        (if bv = [] then [] else ''var '' @ selToIdent sink @ ''_v '' @ vkind @ NL @ bv) @
                        sink @ ''['' @ (if bk = [] then ''k'' else selToIdent sink @ ''_k'') @ ''] = '' @
                        (if bv = [] then ''v'' else selToIdent sink @ ''_v'') @ ''}'' @ NL @ ''}'' @ NL,
                        imports4)
              | Panic \<Rightarrow> Panic
              | OutOfFuel \<Rightarrow> OutOfFuel)
         | Panic \<Rightarrow> Panic
         | OutOfFuel \<Rightarrow> OutOfFuel))"
proof -
  have "fst (reuseSelf W source sink m generating initial) = False"
    using assms(2) by (rule reuseSelf_not)
  then show ?thesis
    using assms(1,3,4) by (simp add: mapCase_def split: outcome.splits)
qed

theorem walkType_map_witness:
  "Underlying exampleWorld (Map (Pointer (Basic ''int'')) (Basic ''string'')) =
     Map (Pointer (Basic ''int'')) (Basic ''string'') \<and>
   \<not> methoder (Map (Pointer (Basic ''int'')) (Basic ''string'')) \<and>
   getElemType exampleWorld (Pointer (Basic ''int'')) ''demo'' [] False = Done (''*int'', []) \<and>
   getElemType exampleWorld (Basic ''string'') ''demo'' [] False = Done (''string'', []) \<and>
   walkType exampleWorld 3 ''o.M'' ''cp.M'' ''demo'' (Map (Pointer (Basic ''int'')) (Basic ''string''))
     [] {} [] False =
     Done (''if o.M != nil {'' @ NL @ TAB @ ''cp.M = make(map[*int]string, len(o.M))'' @ NL @ TAB @
           ''for k, v := range o.M {'' @ NL @
           ''var cp_M_k *int'' @ NL @
           ''if k != nil {'' @ NL @ ''cp_M_k = new(int)'' @ NL @ TAB @ ''*cp_M_k = *k'' @ NL @ ''}'' @ NL @
           ''cp.M[cp_M_k] = v}'' @ NL @ ''}'' @ NL, [])"
proof -
  have u: "Underlying exampleWorld (Map (Pointer (Basic ''int'')) (Basic ''string'')) =
             Map (Pointer (Basic ''int'')) (Basic ''string'')"
    by code_simp
  have m: "False \<or> \<not> methoder (Map (Pointer (Basic ''int'')) (Basic ''string'')) \<or>
           \<not> fst (hasDeepCopy exampleWorld (Map (Pointer (Basic ''int'')) (Basic ''string'')) [] False)"
    by simp
  have g: "getElemType exampleWorld (Pointer (Basic ''int'')) ''demo'' [] False = Done (''*int'', [])"
    by code_simp
  have h: "getElemType exampleWorld (Basic ''string'') ''demo'' [] False = Done (''string'', [])"
    by code_simp
  have i: "selToIdent ''cp.M'' = ''cp_M''"
    by code_simp
  have rk: "walkType exampleWorld 2 ''k'' ''cp_M_k'' ''demo'' (Pointer (Basic ''int'')) [] {} [] False =
            Done (''if k != nil {'' @ NL @ ''cp_M_k = new(int)'' @ NL @ TAB @ ''*cp_M_k = *k'' @ NL @
                  ''}'' @ NL, [])"
    by code_simp
  have rv: "walkType exampleWorld 2 ''v'' ''cp_M_v'' ''demo'' (Basic ''string'') [] {} [] False =
            Done ([], [])"
    by code_simp
  show ?thesis
    using walkType_map [OF u m g h, of 2 "''o.M''" "''cp.M''" "{}"] u g h i rk rv
    by simp
qed

section \<open>Mutually referencing types\<close>





















section \<open>Aliases of imported packages\<close>

text \<open>
  Claim C7. A package met for the first time gets its short name as alias; if that name
  is bound to another path it gets its path with the separators replaced by underscores.
  Within one run every alias should stand for one path and every path have at most one
  alias, and a path met again should get the alias it has.

  \<^verbatim>\<open>getElemType\<close> writes \<^verbatim>\<open>imports[name] = pkg.Path()\<close> without asking whether the
  flattened name is bound already. The theorem evaluates the code on the fields of
  \<^verbatim>\<open>Mixed\<close>, which refer to the packages \<^verbatim>\<open>x/a_b\<close> (called \<^verbatim>\<open>a_b\<close>), \<^verbatim>\<open>z/b\<close>
  and \<^verbatim>\<open>a/b\<close> (both called \<^verbatim>\<open>b\<close>), in this order: \<^verbatim>\<open>x/a_b\<close> gets the alias
  \<^verbatim>\<open>a_b\<close>; \<^verbatim>\<open>a/b\<close> collides on \<^verbatim>\<open>b\<close> and is given the flattened name \<^verbatim>\<open>a_b\<close>,
  which rebinds that alias to \<^verbatim>\<open>a/b\<close>; \<^verbatim>\<open>x/a_b\<close>, met again, finds its alias bound to
  another path and gets a second alias \<^verbatim>\<open>x_a_b\<close>. The operation written says
  \<^verbatim>\<open>new(a_b.V)\<close> for a type of \<^verbatim>\<open>x/a_b\<close>, and the table that becomes the import block
  binds \<^verbatim>\<open>a_b\<close> to \<^verbatim>\<open>a/b\<close>.
\<close>

theorem alias_rebound_to_another_path:
  "getElemType exampleWorld (Named 8) ''demo'' [] True = Done (''a_b.V'', [(''a_b'', ''x/a_b'')]) \<and>
   getElemType exampleWorld (Named 9) ''demo'' [(''a_b'', ''x/a_b'')] True =
     Done (''b.X'', [(''a_b'', ''x/a_b''), (''b'', ''z/b'')]) \<and>
   getElemType exampleWorld (Named 10) ''demo'' [(''a_b'', ''x/a_b''), (''b'', ''z/b'')] True =
     Done (''a_b.Y'', [(''a_b'', ''a/b''), (''b'', ''z/b'')]) \<and>
   getElemType exampleWorld (Named 8) ''demo'' [(''a_b'', ''a/b''), (''b'', ''z/b'')] True =
     Done (''x_a_b.V'', [(''a_b'', ''a/b''), (''b'', ''z/b''), (''x_a_b'', ''x/a_b'')]) \<and>
   generateFunc exampleWorld 3 ''demo'' 14 [] {} False [14] =
     Done (''// DeepCopy generates a deep copy of Mixed'' @ NL @
           ''func (o Mixed) DeepCopy() Mixed {'' @ NL @
           TAB @ ''var cp Mixed = o'' @ NL @
           ''if o.V1 != nil {'' @ NL @ ''cp.V1 = new(a_b.V)'' @ NL @ TAB @ ''*cp.V1 = *o.V1'' @ NL @ ''}'' @ NL @
           ''if o.X != nil {'' @ NL @ ''cp.X = new(b.X)'' @ NL @ TAB @ ''*cp.X = *o.X'' @ NL @ ''}'' @ NL @
           ''if o.Y != nil {'' @ NL @ ''cp.Y = new(a_b.Y)'' @ NL @ TAB @ ''*cp.Y = *o.Y'' @ NL @ ''}'' @ NL @
           ''if o.V2 != nil {'' @ NL @ ''cp.V2 = new(x_a_b.V)'' @ NL @ TAB @ ''*cp.V2 = *o.V2'' @ NL @ ''}'' @ NL @
           ''return cp'' @ NL @ ''}'',
           [(''a_b'', ''a/b''), (''b'', ''z/b''), (''x_a_b'', ''x/a_b'')])"
  by code_simp

section \<open>Text that does not parse\<close>

text \<open>
  Reading the command line opens and closes files; it truncates and writes nothing.
\<close>

lemma parseOutputs_events:
  "parseOutputs W vs f = (r, f', ev) \<Longrightarrow> e \<in> set ev \<Longrightarrow>
   (\<exists>v. e = OpenFile v) \<or> (\<exists>h. e = CloseFile h)"
proof (induction vs arbitrary: f r f' ev)
  case Nil
  then show ?case by simp
next
  case (Cons v vs)
  obtain r1 f1 ev1 where s: "outputSet W v f = (r1, f1, ev1)"
    by (cases "outputSet W v f") auto
  have one: "e \<in> set ev1 \<Longrightarrow> (\<exists>v. e = OpenFile v) \<or> (\<exists>h. e = CloseFile h)"
    using s by (auto simp: outputSet_def split: if_splits option.splits)
  show ?case
  proof (cases r1)
    case None
    obtain r2 f2 ev2 where p: "parseOutputs W vs f1 = (r2, f2, ev2)"
      by (cases "parseOutputs W vs f1") auto
    with Cons.prems s None have "ev = ev1 @ ev2"
      by simp
    with Cons.prems(2) one Cons.IH [OF p] show ?thesis
      by auto
  next
    case (Some err)
    with Cons.prems s have "ev = ev1"
      by simp
    with Cons.prems(2) one show ?thesis
      by simp
  qed
qed

text \<open>
  Claim C8. When the text assembled by a run does not parse, \<^verbatim>\<open>generateFile\<close> fails
  with an error that ends with that text, \<^verbatim>\<open>run\<close> fails with this error, and the
  program leaves with status 1 and a message that contains it, without having truncated
  or written the output: the only events are those of reading the command line.
\<close>

theorem malformed_output_is_fatal:
  assumes "load W path = Inr (p # ps)"
    and "locateAll W p types = Inr objs"
    and "generateAll W fuel (pkg_name p) objs 0 [] skips pointer objs = Done (fns, imps)"
    and "format_source W (fileText W (pkg_name p) imps fns) = Inl err"
  shows "generateFile W (pkg_name p) imps fns =
           Inl (''error formatting source: '' @ err @ NL @ ''source:'' @ NL @
                fileText W (pkg_name p) imps fns) \<and>
         run W fuel path types skips pointer =
           Done (Inl (''generating file content: error formatting source: '' @ err @ NL @
                      ''source:'' @ NL @ fileText W (pkg_name p) imps fns)) \<and>
         (typesF fl = types \<and> types \<noteq> [] \<and> hd types \<noteq> [] \<and> positional fl = [path] \<and>
          skipsF fl = skips \<and> pointerReceiverF fl = pointer \<and>
          parseOutputs W (outputs fl) \<lparr>out_file = None, out_name = []\<rparr> = (None, f, ev) \<longrightarrow>
            main W fuel fl =
              (ev, Exit 1 (''Error generating deep copy method: generating file content: '' @
                           ''error formatting source: '' @ err @ NL @ ''source:'' @ NL @
                           fileText W (pkg_name p) imps fns)) \<and>
            (\<forall>e\<in>set (fst (main W fuel fl)). \<forall>h b. e \<noteq> WriteBytes h b \<and> e \<noteq> Truncate h))"
proof -
  have g: "generateFile W (pkg_name p) imps fns =
           Inl (''error formatting source: '' @ err @ NL @ ''source:'' @ NL @
                fileText W (pkg_name p) imps fns)"
    using assms(4) by (simp add: generateFile_def)
  have r: "run W fuel path types skips pointer =
           Done (Inl (''generating file content: error formatting source: '' @ err @ NL @
                      ''source:'' @ NL @ fileText W (pkg_name p) imps fns))"
    using assms(1,2,3) g by (simp add: run_def)
  have m: "main W fuel fl =
              (ev, Exit 1 (''Error generating deep copy method: generating file content: '' @
                           ''error formatting source: '' @ err @ NL @ ''source:'' @ NL @
                           fileText W (pkg_name p) imps fns)) \<and>
            (\<forall>e\<in>set (fst (main W fuel fl)). \<forall>h b. e \<noteq> WriteBytes h b \<and> e \<noteq> Truncate h)"
    if a: "typesF fl = types \<and> types \<noteq> [] \<and> hd types \<noteq> [] \<and> positional fl = [path] \<and>
          skipsF fl = skips \<and> pointerReceiverF fl = pointer \<and>
          parseOutputs W (outputs fl) \<lparr>out_file = None, out_name = []\<rparr> = (None, f, ev)"
  proof -
    from a have po: "parseOutputs W (outputs fl) \<lparr>out_file = None, out_name = []\<rparr> = (None, f, ev)"
      by blast
    have 1: "main W fuel fl =
              (ev, Exit 1 (''Error generating deep copy method: generating file content: '' @
                           ''error formatting source: '' @ err @ NL @ ''source:'' @ NL @
                           fileText W (pkg_name p) imps fns))"
      using a r by (simp add: main_def)
    have "\<forall>e\<in>set ev. \<forall>h b. e \<noteq> WriteBytes h b \<and> e \<noteq> Truncate h"
      using parseOutputs_events [OF po] by auto
    with 1 show ?thesis by simp
  qed
  from g r m show ?thesis by blast
qed

theorem malformed_output_is_fatal_witness:
  "load rejectingWorld ''./demo'' = Inr (examplePackage # []) \<and>
   locateAll rejectingWorld examplePackage [''A'', ''B''] = Inr [0, 1] \<and>
   format_source rejectingWorld
     (fileText rejectingWorld ''demo'' []
        [''// DeepCopy generates a deep copy of A'' @ NL @ ''func (o A) DeepCopy() A {'' @ NL @
         TAB @ ''var cp A = o'' @ NL @ ''if o.Next != nil {'' @ NL @
         ''cp.Next = o.Next.DeepCopy()'' @ NL @ ''}'' @ NL @ ''return cp'' @ NL @ ''}'',
         ''// DeepCopy generates a deep copy of B'' @ NL @ ''func (o B) DeepCopy() B {'' @ NL @
         TAB @ ''var cp B = o'' @ NL @ ''if o.Prev != nil {'' @ NL @
         ''cp.Prev = o.Prev.DeepCopy()'' @ NL @ ''}'' @ NL @ ''return cp'' @ NL @ ''}'']) =
     Inl ''1:1: expected declaration'' \<and>
   main rejectingWorld 3 exampleFlags =
     ([OpenFile ''out.go''],
      Exit 1 (''Error generating deep copy method: generating file content: '' @
              ''error formatting source: 1:1: expected declaration'' @ NL @ ''source:'' @ NL @
              ''// generated by deep-copy --type A ./demo; DO NOT EDIT.'' @ NL @ NL @
              ''package demo'' @ NL @ NL @
              ''// DeepCopy generates a deep copy of A'' @ NL @ ''func (o A) DeepCopy() A {'' @ NL @
              TAB @ ''var cp A = o'' @ NL @ ''if o.Next != nil {'' @ NL @
              ''cp.Next = o.Next.DeepCopy()'' @ NL @ ''}'' @ NL @ ''return cp'' @ NL @ ''}'' @ NL @ NL @
              ''// DeepCopy generates a deep copy of B'' @ NL @ ''func (o B) DeepCopy() B {'' @ NL @
              TAB @ ''var cp B = o'' @ NL @ ''if o.Prev != nil {'' @ NL @
              ''cp.Prev = o.Prev.DeepCopy()'' @ NL @ ''}'' @ NL @ ''return cp'' @ NL @ ''}'' @ NL @ NL))"
proof -
  let ?fns = "[''// DeepCopy generates a deep copy of A'' @ NL @ ''func (o A) DeepCopy() A {'' @ NL @
         TAB @ ''var cp A = o'' @ NL @ ''if o.Next != nil {'' @ NL @
         ''cp.Next = o.Next.DeepCopy()'' @ NL @ ''}'' @ NL @ ''return cp'' @ NL @ ''}'',
         ''// DeepCopy generates a deep copy of B'' @ NL @ ''func (o B) DeepCopy() B {'' @ NL @
         TAB @ ''var cp B = o'' @ NL @ ''if o.Prev != nil {'' @ NL @
         ''cp.Prev = o.Prev.DeepCopy()'' @ NL @ ''}'' @ NL @ ''return cp'' @ NL @ ''}'']"
  have n: "pkg_name examplePackage = ''demo''"
    by code_simp
  have l: "load rejectingWorld ''./demo'' = Inr (examplePackage # [])"
    by code_simp
  have t: "locateAll rejectingWorld examplePackage [''A'', ''B''] = Inr [0, 1]"
    by code_simp
  have g: "generateAll rejectingWorld 3 (pkg_name examplePackage) [0, 1] 0 [] [] False [0, 1] =
           Done (?fns, [])"
    by code_simp
  have f: "format_source rejectingWorld (fileText rejectingWorld (pkg_name examplePackage) [] ?fns) =
           Inl ''1:1: expected declaration''"
    by code_simp
  have x: "fileText rejectingWorld (pkg_name examplePackage) [] ?fns =
           ''// generated by deep-copy --type A ./demo; DO NOT EDIT.'' @ NL @ NL @
              ''package demo'' @ NL @ NL @
              ''// DeepCopy generates a deep copy of A'' @ NL @ ''func (o A) DeepCopy() A {'' @ NL @
              TAB @ ''var cp A = o'' @ NL @ ''if o.Next != nil {'' @ NL @
              ''cp.Next = o.Next.DeepCopy()'' @ NL @ ''}'' @ NL @ ''return cp'' @ NL @ ''}'' @ NL @ NL @
              ''// DeepCopy generates a deep copy of B'' @ NL @ ''func (o B) DeepCopy() B {'' @ NL @
              TAB @ ''var cp B = o'' @ NL @ ''if o.Prev != nil {'' @ NL @
              ''cp.Prev = o.Prev.DeepCopy()'' @ NL @ ''}'' @ NL @ ''return cp'' @ NL @ ''}'' @ NL @ NL"
    by code_simp
  have a: "typesF exampleFlags = [''A'', ''B''] \<and> [''A'', ''B''] \<noteq> [] \<and> hd [''A'', ''B''] \<noteq> [] \<and>
           positional exampleFlags = [''./demo''] \<and> skipsF exampleFlags = [] \<and>
           pointerReceiverF exampleFlags = False \<and>
           parseOutputs rejectingWorld (outputs exampleFlags) \<lparr>out_file = None, out_name = []\<rparr> =
             (None, \<lparr>out_file = Some (File ''out.go''), out_name = ''out.go''\<rparr>, [OpenFile ''out.go''])"
    by code_simp
  have "main rejectingWorld 3 exampleFlags =
          ([OpenFile ''out.go''],
           Exit 1 (''Error generating deep copy method: generating file content: '' @
                   ''error formatting source: '' @ ''1:1: expected declaration'' @ NL @ ''source:'' @ NL @
                   fileText rejectingWorld (pkg_name examplePackage) [] ?fns))"
    using malformed_output_is_fatal [OF l t g f, of exampleFlags
            "\<lparr>out_file = Some (File ''out.go''), out_name = ''out.go''\<rparr>" "[OpenFile ''out.go'']"]
          a
    by blast
  then have m: "main rejectingWorld 3 exampleFlags =
          ([OpenFile ''out.go''],
           Exit 1 (''Error generating deep copy method: generating file content: '' @
              ''error formatting source: 1:1: expected declaration'' @ NL @ ''source:'' @ NL @
              ''// generated by deep-copy --type A ./demo; DO NOT EDIT.'' @ NL @ NL @
              ''package demo'' @ NL @ NL @
              ''// DeepCopy generates a deep copy of A'' @ NL @ ''func (o A) DeepCopy() A {'' @ NL @
              TAB @ ''var cp A = o'' @ NL @ ''if o.Next != nil {'' @ NL @
              ''cp.Next = o.Next.DeepCopy()'' @ NL @ ''}'' @ NL @ ''return cp'' @ NL @ ''}'' @ NL @ NL @
              ''// DeepCopy generates a deep copy of B'' @ NL @ ''func (o B) DeepCopy() B {'' @ NL @
              TAB @ ''var cp B = o'' @ NL @ ''if o.Prev != nil {'' @ NL @
              ''cp.Prev = o.Prev.DeepCopy()'' @ NL @ ''}'' @ NL @ ''return cp'' @ NL @ ''}'' @ NL @ NL))"
    unfolding x by simp
  from l t f [unfolded n] m show ?thesis
    by (intro conjI)
qed

section \<open>The life of the output destination\<close>

text \<open>
  Claim C9 says that the output destination is opened only after generation has
  succeeded and is closed on every exit path. \<^verbatim>\<open>Set\<close> opens the file when
  \<^verbatim>\<open>flag.Parse\<close> reads \<^verbatim>\<open>-o\<close>, before generation; \<^verbatim>\<open>log.Fatalln\<close> leaves without
  closing it. With a type that is not found, the file is opened and never closed.
\<close>

theorem file_opened_before_failed_generation:
  "main exampleWorld 3
     \<lparr>typesF = [''Zzz''], skipsF = [], pointerReceiverF = False, outputs = [''out.go''],
      positional = [''./demo'']\<rparr> =
   ([OpenFile ''out.go''],
    Exit 1 (''Error generating deep copy method: locating type '' @ [CHR 0x22] @ ''Zzz'' @ [CHR 0x22] @
            '' in '' @ [CHR 0x22] @ ''demo'' @ [CHR 0x22] @ '': type not found''))"
  by code_simp

text \<open>
  Reading the command line opens the files that \<^verbatim>\<open>-o\<close> names and nothing else: every
  event of it opens such a file or closes one, the file that \<^verbatim>\<open>outputF\<close> holds at the
  end was opened by it, and if it succeeds every file named was opened.
\<close>

lemma parseOutputs_opens:
  "parseOutputs W vs f0 = (r, f, ev) \<Longrightarrow>
   (\<forall>e\<in>set ev. (\<exists>v\<in>set vs. e = OpenFile v) \<or> (\<exists>h. e = CloseFile h)) \<and>
   (\<forall>h. out_file f = Some h \<longrightarrow> out_file f0 = Some h \<or> (\<exists>v\<in>set vs. h = File v \<and> OpenFile v \<in> set ev)) \<and>
   (r = None \<longrightarrow> (\<forall>v\<in>set vs. v \<noteq> ''-'' \<and> v \<noteq> [] \<longrightarrow> OpenFile v \<in> set ev))"
proof (induction vs arbitrary: f0 r f ev)
  case Nil
  then show ?case by simp
next
  case (Cons v vs)
  obtain r1 f1 ev1 where s: "outputSet W v f0 = (r1, f1, ev1)"
    by (cases "outputSet W v f0") auto
  show ?case
  proof (cases r1)
    case (Some err)
    with Cons.prems s have "ev = ev1" "f = f1" "r \<noteq> None"
      by auto
    with s Some show ?thesis
      by (auto simp: outputSet_def split: if_splits option.splits)
  next
    case None
    obtain r2 f2 ev2 where p: "parseOutputs W vs f1 = (r2, f2, ev2)"
      by (cases "parseOutputs W vs f1") auto
    with Cons.prems s None have e: "ev = ev1 @ ev2" "f = f2" "r = r2"
      by simp_all
    have one: "(v = ''-'' \<or> v = []) \<and> out_file f1 = None \<and> (\<forall>e\<in>set ev1. \<exists>h. e = CloseFile h) \<or>
               v \<noteq> ''-'' \<and> v \<noteq> [] \<and> out_file f1 = Some (File v) \<and> ev1 = [OpenFile v]"
      using s None by (auto simp: outputSet_def split: if_splits option.splits)
    from Cons.IH [OF p] one e show ?thesis
      by (auto 4 3)
  qed
qed

text \<open>
  Claim C9, amended: the output file is opened (created if absent) while the command
  line is read, before generation starts and whether or not it succeeds; nothing is
  opened later. A run that is stopped by the command line, or whose generation fails,
  panics or does not return, has no further event and does not end with status 0.
  After a successful generation the destination held by \<^verbatim>\<open>outputF\<close> is used: a file
  is truncated, then written with the generated text, then closed; standard output is
  written with the generated text as it is, then closed; the run ends with status 0. If
  truncating fails nothing is written; if writing fails the destination is not closed;
  both end with status 1.
\<close>

theorem output_file_lifecycle:
  assumes "parseOutputs W (outputs fl) \<lparr>out_file = None, out_name = []\<rparr> = (r, f, pe)"
  shows "(\<forall>e\<in>set pe. (\<exists>v\<in>set (outputs fl). e = OpenFile v) \<or> (\<exists>h. e = CloseFile h)) \<and>
         (r = None \<longrightarrow> (\<forall>v\<in>set (outputs fl). v \<noteq> ''-'' \<and> v \<noteq> [] \<longrightarrow> OpenFile v \<in> set pe)) \<and>
         (\<forall>h. out_file f = Some h \<longrightarrow> (\<exists>v\<in>set (outputs fl). h = File v \<and> OpenFile v \<in> set pe)) \<and>
         (r \<noteq> None \<or> typesF fl = [] \<or> hd (typesF fl) = [] \<or> length (positional fl) \<noteq> 1 \<longrightarrow>
            fst (main W fuel fl) = pe \<and> (\<exists>c msg. snd (main W fuel fl) = Exit c msg \<and> c \<noteq> 0)) \<and>
         (r = None \<and> typesF fl \<noteq> [] \<and> hd (typesF fl) \<noteq> [] \<and> length (positional fl) = 1 \<longrightarrow>
            (case run W fuel (hd (positional fl)) (typesF fl) (skipsF fl) (pointerReceiverF fl) of
               Done (Inr b) \<Rightarrow>
                 main W fuel fl =
                   (case out_file f of
                      None \<Rightarrow>
                        (case write_error W of
                           None \<Rightarrow> (pe @ [WriteBytes Stdout b, CloseFile Stdout], Exit 0 [])
                         | Some err \<Rightarrow> (pe, Exit 1 (''Error writing result to file: '' @ err)))
                    | Some h \<Rightarrow>
                        (case truncate_error W of
                           Some err \<Rightarrow> (pe, Exit 1 (''Error initializing output file: '' @ err))
                         | None \<Rightarrow>
                             (case write_error W of
                                None \<Rightarrow> (pe @ [Truncate h, WriteBytes h b, CloseFile h], Exit 0 [])
                              | Some err \<Rightarrow>
                                  (pe @ [Truncate h], Exit 1 (''Error writing result to file: '' @ err)))))
             | Done (Inl err) \<Rightarrow>
                 main W fuel fl = (pe, Exit 1 (''Error generating deep copy method: '' @ err))
             | Panic \<Rightarrow> main W fuel fl = (pe, Crash)
             | OutOfFuel \<Rightarrow> main W fuel fl = (pe, Unfinished)))"
proof -
  note po = parseOutputs_opens [OF assms]
  have 1: "\<forall>e\<in>set pe. (\<exists>v\<in>set (outputs fl). e = OpenFile v) \<or> (\<exists>h. e = CloseFile h)"
    using po by blast
  have 2: "r = None \<longrightarrow> (\<forall>v\<in>set (outputs fl). v \<noteq> ''-'' \<and> v \<noteq> [] \<longrightarrow> OpenFile v \<in> set pe)"
    using po by blast
  have 3: "\<forall>h. out_file f = Some h \<longrightarrow> (\<exists>v\<in>set (outputs fl). h = File v \<and> OpenFile v \<in> set pe)"
    using po by simp
  have 4: "r \<noteq> None \<or> typesF fl = [] \<or> hd (typesF fl) = [] \<or> length (positional fl) \<noteq> 1 \<longrightarrow>
            fst (main W fuel fl) = pe \<and> (\<exists>c msg. snd (main W fuel fl) = Exit c msg \<and> c \<noteq> 0)"
    using assms by (auto simp: main_def split: option.splits)
  have 5: "r = None \<and> typesF fl \<noteq> [] \<and> hd (typesF fl) \<noteq> [] \<and> length (positional fl) = 1 \<longrightarrow>
            (case run W fuel (hd (positional fl)) (typesF fl) (skipsF fl) (pointerReceiverF fl) of
               Done (Inr b) \<Rightarrow>
                 main W fuel fl =
                   (case out_file f of
                      None \<Rightarrow>
                        (case write_error W of
                           None \<Rightarrow> (pe @ [WriteBytes Stdout b, CloseFile Stdout], Exit 0 [])
                         | Some err \<Rightarrow> (pe, Exit 1 (''Error writing result to file: '' @ err)))
                    | Some h \<Rightarrow>
                        (case truncate_error W of
                           Some err \<Rightarrow> (pe, Exit 1 (''Error initializing output file: '' @ err))
                         | None \<Rightarrow>
                             (case write_error W of
                                None \<Rightarrow> (pe @ [Truncate h, WriteBytes h b, CloseFile h], Exit 0 [])
                              | Some err \<Rightarrow>
                                  (pe @ [Truncate h], Exit 1 (''Error writing result to file: '' @ err)))))
             | Done (Inl err) \<Rightarrow>
                 main W fuel fl = (pe, Exit 1 (''Error generating deep copy method: '' @ err))
             | Panic \<Rightarrow> main W fuel fl = (pe, Crash)
             | OutOfFuel \<Rightarrow> main W fuel fl = (pe, Unfinished))"
    using assms
    by (auto simp: main_def outputOpen_def split: option.splits outcome.splits sum.splits)
  from 1 2 3 4 5 show ?thesis
    by (intro conjI)
qed

theorem output_file_lifecycle_witness:
  "parseOutputs exampleWorld (outputs exampleFlags) \<lparr>out_file = None, out_name = []\<rparr> =
     (None, \<lparr>out_file = Some (File ''out.go''), out_name = ''out.go''\<rparr>, [OpenFile ''out.go'']) \<and>
   main exampleWorld 3 exampleFlags =
     ([OpenFile ''out.go'', Truncate (File ''out.go''),
       WriteBytes (File ''out.go'')
         (''// generated by deep-copy --type A ./demo; DO NOT EDIT.'' @ NL @ NL @
          ''package demo'' @ NL @ NL @
          ''// DeepCopy generates a deep copy of A'' @ NL @ ''func (o A) DeepCopy() A {'' @ NL @
          TAB @ ''var cp A = o'' @ NL @ ''if o.Next != nil {'' @ NL @
          ''cp.Next = o.Next.DeepCopy()'' @ NL @ ''}'' @ NL @ ''return cp'' @ NL @ ''}'' @ NL @ NL @
          ''// DeepCopy generates a deep copy of B'' @ NL @ ''func (o B) DeepCopy() B {'' @ NL @
          TAB @ ''var cp B = o'' @ NL @ ''if o.Prev != nil {'' @ NL @
          ''cp.Prev = o.Prev.DeepCopy()'' @ NL @ ''}'' @ NL @ ''return cp'' @ NL @ ''}'' @ NL @ NL),
       CloseFile (File ''out.go'')], Exit 0 [])"
proof -
  have p: "parseOutputs exampleWorld (outputs exampleFlags) \<lparr>out_file = None, out_name = []\<rparr> =
     (None, \<lparr>out_file = Some (File ''out.go''), out_name = ''out.go''\<rparr>, [OpenFile ''out.go''])"
    by code_simp
  have a: "None = (None :: string option) \<and> typesF exampleFlags \<noteq> [] \<and> hd (typesF exampleFlags) \<noteq> [] \<and>
           length (positional exampleFlags) = 1"
    by code_simp
  have r: "run exampleWorld 3 (hd (positional exampleFlags)) (typesF exampleFlags) (skipsF exampleFlags)
             (pointerReceiverF exampleFlags) =
           Done (Inr (''// generated by deep-copy --type A ./demo; DO NOT EDIT.'' @ NL @ NL @
          ''package demo'' @ NL @ NL @
          ''// DeepCopy generates a deep copy of A'' @ NL @ ''func (o A) DeepCopy() A {'' @ NL @
          TAB @ ''var cp A = o'' @ NL @ ''if o.Next != nil {'' @ NL @
          ''cp.Next = o.Next.DeepCopy()'' @ NL @ ''}'' @ NL @ ''return cp'' @ NL @ ''}'' @ NL @ NL @
          ''// DeepCopy generates a deep copy of B'' @ NL @ ''func (o B) DeepCopy() B {'' @ NL @
          TAB @ ''var cp B = o'' @ NL @ ''if o.Prev != nil {'' @ NL @
          ''cp.Prev = o.Prev.DeepCopy()'' @ NL @ ''}'' @ NL @ ''return cp'' @ NL @ ''}'' @ NL @ NL))"
    by code_simp
  have e: "truncate_error exampleWorld = None" "write_error exampleWorld = None"
    by code_simp+
  from output_file_lifecycle [OF p, of 3] a
  have "case run exampleWorld 3 (hd (positional exampleFlags)) (typesF exampleFlags) (skipsF exampleFlags)
               (pointerReceiverF exampleFlags) of
          Done (Inr b) \<Rightarrow>
            main exampleWorld 3 exampleFlags =
              (case out_file \<lparr>out_file = Some (File ''out.go''), out_name = ''out.go''\<rparr> of
                 None \<Rightarrow>
                   (case write_error exampleWorld of
                      None \<Rightarrow> ([OpenFile ''out.go''] @ [WriteBytes Stdout b, CloseFile Stdout], Exit 0 [])
                    | Some err \<Rightarrow> ([OpenFile ''out.go''], Exit 1 (''Error writing result to file: '' @ err)))
               | Some h \<Rightarrow>
                   (case truncate_error exampleWorld of
                      Some err \<Rightarrow> ([OpenFile ''out.go''], Exit 1 (''Error initializing output file: '' @ err))
                    | None \<Rightarrow>
                        (case write_error exampleWorld of
                           None \<Rightarrow> ([OpenFile ''out.go''] @ [Truncate h, WriteBytes h b, CloseFile h], Exit 0 [])
                         | Some err \<Rightarrow>
                             ([OpenFile ''out.go''] @ [Truncate h],
                              Exit 1 (''Error writing result to file: '' @ err)))))
        | Done (Inl err) \<Rightarrow>
            main exampleWorld 3 exampleFlags =
              ([OpenFile ''out.go''], Exit 1 (''Error generating deep copy method: '' @ err))
        | Panic \<Rightarrow> main exampleWorld 3 exampleFlags = ([OpenFile ''out.go''], Crash)
        | OutOfFuel \<Rightarrow> main exampleWorld 3 exampleFlags = ([OpenFile ''out.go''], Unfinished)"
    by blast
  then have "main exampleWorld 3 exampleFlags =
     ([OpenFile ''out.go'', Truncate (File ''out.go''),
       WriteBytes (File ''out.go'')
         (''// generated by deep-copy --type A ./demo; DO NOT EDIT.'' @ NL @ NL @
          ''package demo'' @ NL @ NL @
          ''// DeepCopy generates a deep copy of A'' @ NL @ ''func (o A) DeepCopy() A {'' @ NL @
          TAB @ ''var cp A = o'' @ NL @ ''if o.Next != nil {'' @ NL @
          ''cp.Next = o.Next.DeepCopy()'' @ NL @ ''}'' @ NL @ ''return cp'' @ NL @ ''}'' @ NL @ NL @
          ''// DeepCopy generates a deep copy of B'' @ NL @ ''func (o B) DeepCopy() B {'' @ NL @
          TAB @ ''var cp B = o'' @ NL @ ''if o.Prev != nil {'' @ NL @
          ''cp.Prev = o.Prev.DeepCopy()'' @ NL @ ''}'' @ NL @ ''return cp'' @ NL @ ''}'' @ NL @ NL),
       CloseFile (File ''out.go'')], Exit 0 [])"
    unfolding r e by simp
  with p show ?thesis
    by (intro conjI)
qed

section \<open>The Reference Table as a state\<close>

text \<open>
  At every moment of a run the Reference Table is one-to-one, although an alias can be
  bound anew during the run: whenever the operations of a run have been
  written, the table they leave has one entry per alias and no path under two aliases.
  The invariant \<open>aliasInv\<close> holds of the empty table and is kept by every call of
  \<^verbatim>\<open>getElemType\<close>, hence by every walk.
\<close>

lemma aliasInv_short:
  assumes c: "consistentPackages W" and i: "aliasInv W T"
    and k: "obj_pkg (named W k) = Some (n, p)"
    and m: "map_of T n = None \<or> map_of T n = Some p"
  shows "aliasInv W (AList.update n p T)"
proof -
  let ?M = "map_of T"
  from i have inj: "\<And>a b q. ?M a = Some q \<Longrightarrow> ?M b = Some q \<Longrightarrow> a = b"
    and d: "distinct (map fst T)"
    and own: "\<And>a q. ?M a = Some q \<Longrightarrow>
               \<exists>j n'. obj_pkg (named W j) = Some (n', q) \<and> (a = n' \<or> (a = flattenPath q \<and> ?M n' \<noteq> None))"
    by (auto simp: aliasInv_def oneAliasPerPath_def)
  have only: "b = n" if "?M b = Some p" for b
  proof -
    from own [OF that] obtain j n' where j: "obj_pkg (named W j) = Some (n', p)"
      and b: "b = n' \<or> (b = flattenPath p \<and> ?M n' \<noteq> None)"
      by blast
    from c j k have "n' = n"
      unfolding consistentPackages_def by blast
    with b m inj [OF that] show ?thesis
      by auto
  qed
  have 1: "distinct (map fst (AList.update n p T))"
    using d by (simp add: distinct_update)
  have 2: "a = b" if "(?M(n \<mapsto> p)) a = Some q" "(?M(n \<mapsto> p)) b = Some q" for a b q
    using that inj only by (auto split: if_splits)
  have 3: "\<exists>j n'. obj_pkg (named W j) = Some (n', q) \<and>
             (a = n' \<or> (a = flattenPath q \<and> (?M(n \<mapsto> p)) n' \<noteq> None))"
    if "(?M(n \<mapsto> p)) a = Some q" for a q
  proof (cases "a = n")
    case True
    with that k show ?thesis by auto
  next
    case False
    with that have "?M a = Some q" by simp
    from own [OF this] obtain j n' where j: "obj_pkg (named W j) = Some (n', q)"
      and alt: "a = n' \<or> (a = flattenPath q \<and> ?M n' \<noteq> None)"
      by blast
    have "(?M(n \<mapsto> p)) n' \<noteq> None" if "?M n' \<noteq> None"
      using that by simp
    with j alt show ?thesis by blast
  qed
  from 1 2 3 show ?thesis
    unfolding aliasInv_def oneAliasPerPath_def update_conv' by blast
qed

lemma aliasInv_flat:
  assumes c: "consistentPackages W" and i: "aliasInv W T"
    and k: "obj_pkg (named W k) = Some (n, p)"
    and m: "map_of T n = Some q" "q \<noteq> p"
  shows "aliasInv W (AList.update (flattenPath p) p T)"
proof -
  let ?M = "map_of T"
  let ?f = "flattenPath p"
  from i have inj: "\<And>a b q. ?M a = Some q \<Longrightarrow> ?M b = Some q \<Longrightarrow> a = b"
    and d: "distinct (map fst T)"
    and own: "\<And>a q. ?M a = Some q \<Longrightarrow>
               \<exists>j n'. obj_pkg (named W j) = Some (n', q) \<and> (a = n' \<or> (a = flattenPath q \<and> ?M n' \<noteq> None))"
    by (auto simp: aliasInv_def oneAliasPerPath_def)
  have only: "b = ?f" if "?M b = Some p" for b
  proof -
    from own [OF that] obtain j n' where j: "obj_pkg (named W j) = Some (n', p)"
      and b: "b = n' \<or> (b = flattenPath p \<and> ?M n' \<noteq> None)"
      by blast
    from c j k have "n' = n"
      unfolding consistentPackages_def by blast
    with b m that show ?thesis
      by auto
  qed
  have 1: "distinct (map fst (AList.update ?f p T))"
    using d by (simp add: distinct_update)
  have 2: "a = b" if "(?M(?f \<mapsto> p)) a = Some r" "(?M(?f \<mapsto> p)) b = Some r" for a b r
    using that inj only by (auto split: if_splits)
  have 3: "\<exists>j n'. obj_pkg (named W j) = Some (n', r) \<and>
             (a = n' \<or> (a = flattenPath r \<and> (?M(?f \<mapsto> p)) n' \<noteq> None))"
    if "(?M(?f \<mapsto> p)) a = Some r" for a r
  proof (cases "a = ?f")
    case True
    with that have "r = p" by simp
    moreover have "(?M(?f \<mapsto> p)) n \<noteq> None"
      using m by simp
    ultimately show ?thesis
      using True k by blast
  next
    case False
    with that have "?M a = Some r" by simp
    from own [OF this] obtain j n' where j: "obj_pkg (named W j) = Some (n', r)"
      and alt: "a = n' \<or> (a = flattenPath r \<and> ?M n' \<noteq> None)"
      by blast
    have "(?M(?f \<mapsto> p)) n' \<noteq> None" if "?M n' \<noteq> None"
      using that by simp
    with j alt show ?thesis by blast
  qed
  from 1 2 3 show ?thesis
    unfolding aliasInv_def oneAliasPerPath_def update_conv' by blast
qed

lemma getElemType_aliasInv:
  assumes "consistentPackages W" "aliasInv W T" "getElemType W t x T rawkind = Done (kind, T')"
  shows "aliasInv W T'"
proof (cases "objFromType t")
  case None
  with assms show ?thesis
    by (auto simp: getElemType_def split: if_splits list.splits)
next
  case (Some k)
  show ?thesis
  proof (cases "obj_pkg (named W k)")
    case None
    with Some assms show ?thesis
      by (auto simp: getElemType_def split: if_splits list.splits)
  next
    case pk: (Some np)
    obtain n p where np: "np = (n, p)" by (cases np)
    show ?thesis
    proof (cases "n = x")
      case True
      with Some pk np assms show ?thesis
        by (auto simp: getElemType_def split: if_splits list.splits)
    next
      case False
      have "T' = AList.update (case map_of T n of
                                  Some path \<Rightarrow> if path \<noteq> p then flattenPath p else n
                                | None \<Rightarrow> n) p T"
        using Some pk np False assms(3)
        by (auto simp: getElemType_def Let_def split: if_splits list.splits)
      then show ?thesis
        using aliasInv_short [OF assms(1,2), of k n p] aliasInv_flat [OF assms(1,2), of k n p] pk np
        by (auto split: option.splits)
    qed
  qed
qed

lemma andThen_DoneE:
  assumes "andThen r f = Done y"
  obtains z where "r = Done z" "f z = Done y"
  using assms by (cases r) auto

lemma sliceCase_aliasInv:
  assumes c: "consistentPackages W"
    and w: "\<And>src snk t T b T'. aliasInv W T \<Longrightarrow> walk src snk t T = Done (b, T') \<Longrightarrow> aliasInv W T'"
    and i: "aliasInv W T"
    and r: "sliceCase W walk source sink x e T skips initial = Done (b, T')"
  shows "aliasInv W T'"
proof -
  from r obtain kind T1 where g: "getElemType W e x T False = Done (kind, T1)"
    and r1: "andThen (if afterFirstDot (if initial then ''[i]'' else sink @ ''[i]'') \<in> skips
                      then Done ([], T1) else walk (source @ ''[i]'') (sink @ ''[i]'') e T1)
               (\<lambda>(b', T2). Done (''if '' @ source @ '' != nil {'' @ NL @ TAB @ sink @ '' = make([]'' @ kind @
                  '', len('' @ source @ ''))'' @ NL @ ''copy('' @ sink @ '', '' @ source @ '')'' @ NL @
                  (if b' \<noteq> [] then ''    for i := range '' @ source @ '' {'' @ NL @ b' @ ''}'' @ NL
                   else []) @ ''}'' @ NL, T2)) = Done (b, T')"
    unfolding sliceCase_def Let_def by (elim andThen_DoneE) (auto split: prod.splits)
  from getElemType_aliasInv [OF c i g] have i1: "aliasInv W T1" .
  from r1 obtain b' where "(if afterFirstDot (if initial then ''[i]'' else sink @ ''[i]'') \<in> skips
                      then Done ([], T1) else walk (source @ ''[i]'') (sink @ ''[i]'') e T1) = Done (b', T')"
    by (elim andThen_DoneE) (auto split: prod.splits)
  with i1 w show ?thesis
    by (auto split: if_splits)
qed

lemma pointerCase_aliasInv:
  assumes c: "consistentPackages W"
    and w: "\<And>src snk t T b T'. aliasInv W T \<Longrightarrow> walk src snk t T = Done (b, T') \<Longrightarrow> aliasInv W T'"
    and i: "aliasInv W T"
    and r: "pointerCase W walk source sink x e T generating initial = Done (b, T')"
  shows "aliasInv W T'"
proof (cases "fst (if methoder e \<and> \<not> initial then reuseDeepCopy W source sink e True generating
                   else (False, []))")
  case True
  with r i show ?thesis
    by (auto simp: pointerCase_def Let_def split: prod.splits)
next
  case False
  with r have "andThen (getElemType W e x T True) (\<lambda>(kind, T1).
             andThen (walk source sink e T1) (\<lambda>(b', T2).
               Done (''if '' @ source @ '' != nil {'' @ NL @ sink @ '' = new('' @ kind @ '')'' @ NL @ TAB @
                     ''*'' @ sink @ '' = *'' @ source @ NL @ b' @ ''}'' @ NL, T2))) = Done (b, T')"
    by (auto simp: pointerCase_def Let_def split: prod.splits)
  then obtain kind T1 b' where g: "getElemType W e x T True = Done (kind, T1)"
    and r1: "walk source sink e T1 = Done (b', T')"
    by (elim andThen_DoneE) (auto split: prod.splits elim!: andThen_DoneE)
  from getElemType_aliasInv [OF c i g] w r1 show ?thesis
    by blast
qed

lemma chanCase_aliasInv:
  assumes c: "consistentPackages W" and i: "aliasInv W T"
    and r: "chanCase W source sink x e T = Done (b, T')"
  shows "aliasInv W T'"
proof -
  from r obtain kind where "getElemType W e x T False = Done (kind, T')"
    unfolding chanCase_def by (elim andThen_DoneE) (auto split: prod.splits)
  from getElemType_aliasInv [OF c i this] show ?thesis .
qed

lemma mapCase_aliasInv:
  assumes c: "consistentPackages W"
    and w: "\<And>src snk t T b T'. aliasInv W T \<Longrightarrow> walk src snk t T = Done (b, T') \<Longrightarrow> aliasInv W T'"
    and i: "aliasInv W T"
    and r: "mapCase W walk source sink x key e T skips initial = Done (b, T')"
  shows "aliasInv W T'"
proof -
  let ?skip = "afterFirstDot (if initial then ''[k]'' else sink @ ''[k]'') \<in> skips"
  from r obtain kkind T1 vkind T2 bk T3 bv where g1: "getElemType W key x T False = Done (kkind, T1)"
    and g2: "getElemType W e x T1 False = Done (vkind, T2)"
    and k: "(if ?skip then Done ([], T2) else walk ''k'' (selToIdent sink @ ''_k'') key T2) = Done (bk, T3)"
    and v: "(if ?skip then Done ([], T3) else walk ''v'' (selToIdent sink @ ''_v'') e T3) = Done (bv, T')"
    unfolding mapCase_def Let_def
    by (elim andThen_DoneE) (auto split: prod.splits elim!: andThen_DoneE)
  from getElemType_aliasInv [OF c i g1] have "aliasInv W T1" .
  from getElemType_aliasInv [OF c this g2] have "aliasInv W T2" .
  with k w have "aliasInv W T3"
    by (auto split: if_splits)
  with v w show ?thesis
    by (auto split: if_splits)
qed

lemma structCase_aliasInv:
  assumes w: "\<And>src snk t T b T'. aliasInv W T \<Longrightarrow> walk src snk t T = Done (b, T') \<Longrightarrow> aliasInv W T'"
  shows "aliasInv W T \<Longrightarrow> structCase walk source sink exportedOnly fs T skips = Done (b, T') \<Longrightarrow>
         aliasInv W T'"
proof (induction fs arbitrary: T b)
  case Nil
  then show ?case by simp
next
  case (Cons f fs)
  obtain fname ftype exported where f: "f = (fname, ftype, exported)"
    by (cases f)
  show ?case
  proof (cases "(exportedOnly \<and> \<not> exported) \<or> afterFirstDot (sink @ ''.'' @ fname) \<in> skips")
    case True
    with Cons.prems f have "structCase walk source sink exportedOnly fs T skips = Done (b, T')"
      by (auto split: if_splits)
    with Cons.IH Cons.prems(1) show ?thesis by blast
  next
    case False
    with Cons.prems(2) f obtain b1 T1 bs where
      1: "walk (source @ ''.'' @ fname) (sink @ ''.'' @ fname) ftype T = Done (b1, T1)"
      and 2: "structCase walk source sink exportedOnly fs T1 skips = Done (bs, T')"
      by (auto elim!: andThen_DoneE split: prod.splits if_splits)
    from w [OF Cons.prems(1) 1] have "aliasInv W T1" .
    from Cons.IH [OF this 2] show ?thesis .
  qed
qed

lemma walkType_aliasInv:
  assumes c: "consistentPackages W"
  shows "aliasInv W T \<Longrightarrow> walkType W n source sink x m T skips generating initial = Done (b, T') \<Longrightarrow>
         aliasInv W T'"
proof (induction n arbitrary: source sink m T b T' initial)
  case 0
  then show ?case by simp
next
  case (Suc n)
  let ?walk = "\<lambda>src snk t imps. walkType W n src snk x t imps skips generating False"
  have w: "\<And>src snk t T b T'. aliasInv W T \<Longrightarrow> ?walk src snk t T = Done (b, T') \<Longrightarrow> aliasInv W T'"
    using Suc.IH by blast
  show ?case
  proof (cases "fst (reuseSelf W source sink m generating initial)")
    case True
    with Suc.prems show ?thesis by simp
  next
    case False
    show ?thesis
    proof (cases "Underlying W m")
      case (Struct fs)
      with False Suc.prems(2) have "structCase ?walk source sink (needExported W x m) fs T skips = Done (b, T')"
        by simp
      from structCase_aliasInv [of W ?walk, OF w Suc.prems(1) this] show ?thesis .
    next
      case (Slice e)
      with False Suc.prems(2) have "sliceCase W ?walk source sink x e T skips initial = Done (b, T')"
        by simp
      from sliceCase_aliasInv [of W ?walk, OF c w Suc.prems(1) this] show ?thesis .
    next
      case (Pointer e)
      with False Suc.prems(2) have "pointerCase W ?walk source sink x e T generating initial = Done (b, T')"
        by simp
      from pointerCase_aliasInv [of W ?walk, OF c w Suc.prems(1) this] show ?thesis .
    next
      case (Chan e)
      with False Suc.prems(2) have "chanCase W source sink x e T = Done (b, T')"
        by simp
      from chanCase_aliasInv [OF c Suc.prems(1) this] show ?thesis .
    next
      case (Map key e)
      with False Suc.prems(2) have "mapCase W ?walk source sink x key e T skips initial = Done (b, T')"
        by simp
      from mapCase_aliasInv [of W ?walk, OF c w Suc.prems(1) this] show ?thesis .
    qed (use False Suc.prems in simp_all)
  qed
qed

lemma aliasInv_empty: "aliasInv W []"
  by (simp add: aliasInv_def oneAliasPerPath_def)

lemma generateFunc_aliasInv:
  assumes "consistentPackages W" "aliasInv W T"
    and "generateFunc W fuel pname obj T skips pointer generating = Done (fn, T')"
  shows "aliasInv W T'"
proof -
  from assms(3) obtain body where
    "walkType W fuel ''o'' ''cp'' pname (Named obj) T skips generating True = Done (body, T')"
    unfolding generateFunc_def Let_def by (elim andThen_DoneE) (auto split: prod.splits)
  from walkType_aliasInv [OF assms(1,2) this] show ?thesis .
qed

lemma generateAll_aliasInv:
  assumes c: "consistentPackages W"
  shows "aliasInv W T \<Longrightarrow> generateAll W fuel pname objs i T skips pointer generating = Done (fns, T') \<Longrightarrow>
         aliasInv W T'"
proof (induction objs arbitrary: i T fns)
  case Nil
  then show ?case by simp
next
  case (Cons obj objs)
  from Cons.prems(2) obtain fn T1 fns1 where
    1: "generateFunc W fuel pname obj T (if i < length skips then skips ! i else {}) pointer generating =
          Done (fn, T1)"
    and 2: "generateAll W fuel pname objs (Suc i) T1 skips pointer generating = Done (fns1, T')"
    by (auto elim!: andThen_DoneE split: prod.splits)
  from generateFunc_aliasInv [OF c Cons.prems(1) 1] have "aliasInv W T1" .
  from Cons.IH [OF this 2] show ?case .
qed

theorem reference_table_one_alias_per_path:
  assumes "consistentPackages W"
    and "generateAll W fuel pname objs i [] skips pointer generating = Done (fns, T)"
  shows "oneAliasPerPath T"
  using generateAll_aliasInv [OF assms(1) aliasInv_empty assms(2)]
  by (simp add: aliasInv_def)

lemma example_pkgs:
  "obj_pkg (named exampleWorld k) = Some (n, p) \<Longrightarrow>
   (n, p) = (''demo'', ''example.com/demo'') \<or> (n, p) = (''a_b'', ''x/a_b'') \<or>
   (n, p) = (''b'', ''z/b'') \<or> (n, p) = (''b'', ''a/b'')"
  by (auto simp: exampleWorld_def exampleDecl_def demoPkg_def split: if_splits)

lemma example_consistent: "consistentPackages exampleWorld"
  unfolding consistentPackages_def
proof (intro allI impI)
  fix j k n1 n2 p
  assume "obj_pkg (named exampleWorld j) = Some (n1, p) \<and> obj_pkg (named exampleWorld k) = Some (n2, p)"
  then show "n1 = n2"
    using example_pkgs [of j n1 p] example_pkgs [of k n2 p] by auto
qed

theorem reference_table_one_alias_per_path_witness:
  "consistentPackages exampleWorld \<and>
   generateAll exampleWorld 3 ''demo'' [14] 0 [] [] False [14] =
     Done ([''// DeepCopy generates a deep copy of Mixed'' @ NL @
            ''func (o Mixed) DeepCopy() Mixed {'' @ NL @
            TAB @ ''var cp Mixed = o'' @ NL @
            ''if o.V1 != nil {'' @ NL @ ''cp.V1 = new(a_b.V)'' @ NL @ TAB @ ''*cp.V1 = *o.V1'' @ NL @ ''}'' @ NL @
            ''if o.X != nil {'' @ NL @ ''cp.X = new(b.X)'' @ NL @ TAB @ ''*cp.X = *o.X'' @ NL @ ''}'' @ NL @
            ''if o.Y != nil {'' @ NL @ ''cp.Y = new(a_b.Y)'' @ NL @ TAB @ ''*cp.Y = *o.Y'' @ NL @ ''}'' @ NL @
            ''if o.V2 != nil {'' @ NL @ ''cp.V2 = new(x_a_b.V)'' @ NL @ TAB @ ''*cp.V2 = *o.V2'' @ NL @ ''}'' @ NL @
            ''return cp'' @ NL @ ''}''],
           [(''a_b'', ''a/b''), (''b'', ''z/b''), (''x_a_b'', ''x/a_b'')]) \<and>
   oneAliasPerPath [(''a_b'', ''a/b''), (''b'', ''z/b''), (''x_a_b'', ''x/a_b'')]"
proof -
  have g: "generateAll exampleWorld 3 ''demo'' [14] 0 [] [] False [14] =
     Done ([''// DeepCopy generates a deep copy of Mixed'' @ NL @
            ''func (o Mixed) DeepCopy() Mixed {'' @ NL @
            TAB @ ''var cp Mixed = o'' @ NL @
            ''if o.V1 != nil {'' @ NL @ ''cp.V1 = new(a_b.V)'' @ NL @ TAB @ ''*cp.V1 = *o.V1'' @ NL @ ''}'' @ NL @
            ''if o.X != nil {'' @ NL @ ''cp.X = new(b.X)'' @ NL @ TAB @ ''*cp.X = *o.X'' @ NL @ ''}'' @ NL @
            ''if o.Y != nil {'' @ NL @ ''cp.Y = new(a_b.Y)'' @ NL @ TAB @ ''*cp.Y = *o.Y'' @ NL @ ''}'' @ NL @
            ''if o.V2 != nil {'' @ NL @ ''cp.V2 = new(x_a_b.V)'' @ NL @ TAB @ ''*cp.V2 = *o.V2'' @ NL @ ''}'' @ NL @
            ''return cp'' @ NL @ ''}''],
           [(''a_b'', ''a/b''), (''b'', ''z/b''), (''x_a_b'', ''x/a_b'')])"
    by code_simp
  from reference_table_one_alias_per_path [OF example_consistent g] example_consistent g
  show ?thesis
    by (intro conjI)
qed

text \<open>
  Asking \<^verbatim>\<open>getElemType\<close> again for the same type, with nothing in between, gives the
  same name and leaves the table as the first call left it.
\<close>

theorem getElemType_twice:
  assumes "getElemType W t x T rawkind = Done (kind, T')"
  shows "getElemType W t x T' rawkind = Done (kind, T')"
proof (cases "objFromType t")
  case None
  with assms show ?thesis
    by (auto simp: getElemType_def split: if_splits list.splits)
next
  case (Some k)
  show ?thesis
  proof (cases "obj_pkg (named W k)")
    case None
    with Some assms show ?thesis
      by (auto simp: getElemType_def split: if_splits list.splits)
  next
    case pk: (Some np)
    obtain n p where np: "np = (n, p)" by (cases np)
    show ?thesis
    proof (cases "n = x")
      case True
      with Some pk np assms show ?thesis
        by (auto simp: getElemType_def split: if_splits list.splits)
    next
      case False
      let ?a = "case map_of T n of Some path \<Rightarrow> if path \<noteq> p then flattenPath p else n | None \<Rightarrow> n"
      have T': "T' = AList.update ?a p T"
        using Some pk np False assms
        by (auto simp: getElemType_def Let_def split: if_splits list.splits)
      have a: "(case map_of T' n of Some path \<Rightarrow> if path \<noteq> p then flattenPath p else n | None \<Rightarrow> n) = ?a"
        unfolding T' by (auto simp: update_conv' split: option.splits)
      have u: "AList.update ?a p T' = T'"
        unfolding T' by simp
      show ?thesis
        using Some pk np False assms a u
        by (auto simp: getElemType_def Let_def split: if_splits list.splits)
    qed
  qed
qed

theorem getElemType_twice_witness:
  "getElemType exampleWorld (Named 10) ''demo'' [(''b'', ''z/b'')] True =
     Done (''a_b.Y'', [(''b'', ''z/b''), (''a_b'', ''a/b'')]) \<and>
   getElemType exampleWorld (Named 10) ''demo'' [(''b'', ''z/b''), (''a_b'', ''a/b'')] True =
     Done (''a_b.Y'', [(''b'', ''z/b''), (''a_b'', ''a/b'')])"
proof -
  have g: "getElemType exampleWorld (Named 10) ''demo'' [(''b'', ''z/b'')] True =
     Done (''a_b.Y'', [(''b'', ''z/b''), (''a_b'', ''a/b'')])"
    by code_simp
  from getElemType_twice [OF g] g show ?thesis
    by (intro conjI)
qed

section \<open>What the Capability Detector computes\<close>

text \<open>
  For a member of the Generation Set the detector reports a capability with the shape
  it was asked with.
\<close>

theorem hasDeepCopy_member:
  assumes "list_ex (\<lambda>t. Identical v (Named t)) generating"
  shows "hasDeepCopy W v generating pointer = (True, pointer)"
  using assms by (simp add: hasDeepCopy_def)

theorem hasDeepCopy_member_witness:
  "list_ex (\<lambda>t. Identical (Named 1) (Named t)) [0, 1] \<and>
   hasDeepCopy exampleWorld (Named 1) [0, 1] True = (True, True)"
proof -
  have m: "list_ex (\<lambda>t. Identical (Named 1) (Named t)) [0, 1]"
    by code_simp
  from hasDeepCopy_member [OF m, of exampleWorld True] m show ?thesis
    by (intro conjI)
qed

text \<open>
  For a type outside the Generation Set whose methods have different names, the
  detector reports a capability exactly when the method \<^verbatim>\<open>DeepCopy\<close> has no parameter
  and one result and \<^verbatim>\<open>reducePointer\<close> takes result type and receiver type to the same
  type; the shape is whether \<^verbatim>\<open>reducePointer\<close> reduced the result type, which it does
  for every type that has an element type, not only for indirections.
\<close>

lemma scanMethods_without_DeepCopy:
  "map_of ms ''DeepCopy'' = None \<Longrightarrow> scanMethods ms = (False, False)"
  by (induction ms rule: scanMethods.induct) (auto split: if_splits)

theorem hasDeepCopy_declared:
  assumes "\<not> list_ex (\<lambda>t. Identical v (Named t)) generating"
    and "distinct (map fst (Methods W v))"
  shows "hasDeepCopy W v generating pointer =
     (case map_of (Methods W v) ''DeepCopy'' of
        Some (Signature recv [] [ret]) \<Rightarrow>
          if fst (reducePointer ret) = fst (reducePointer recv) then (True, snd (reducePointer ret))
          else (False, False)
      | _ \<Rightarrow> (False, False))"
proof -
  have "distinct (map fst ms) \<Longrightarrow>
        scanMethods ms =
          (case map_of ms ''DeepCopy'' of
             Some (Signature recv [] [ret]) \<Rightarrow>
               if fst (reducePointer ret) = fst (reducePointer recv) then (True, snd (reducePointer ret))
               else (False, False)
           | _ \<Rightarrow> (False, False))" for ms
  proof (induction ms)
    case Nil
    show ?case by simp
  next
    case (Cons m ms)
    obtain name t where m: "m = (name, t)"
      by (cases m)
    show ?case
    proof (cases "name = ''DeepCopy''")
      case False
      with Cons m show ?thesis
        by (cases t) simp_all
    next
      case True
      with Cons.prems m have "map_of ms ''DeepCopy'' = None"
        by (auto simp: map_of_eq_None_iff)
      then have "scanMethods ms = (False, False)"
        by (rule scanMethods_without_DeepCopy)
      with True m show ?thesis
        by (cases t) (auto simp: Identical_def split: prod.splits list.splits)
    qed
  qed
  with assms show ?thesis
    by (simp add: hasDeepCopy_def)
qed

theorem hasDeepCopy_declared_witness:
  "\<not> list_ex (\<lambda>t. Identical (Named 12) (Named t)) [0] \<and>
   distinct (map fst (Methods exampleWorld (Named 12))) \<and>
   map_of (Methods exampleWorld (Named 12)) ''DeepCopy'' =
     Some (Signature (Pointer (Named 12)) [] [Pointer (Named 12)]) \<and>
   hasDeepCopy exampleWorld (Named 12) [0] False = (True, True)"
proof -
  have a: "\<not> list_ex (\<lambda>t. Identical (Named 12) (Named t)) [0]"
    by code_simp
  have d: "distinct (map fst (Methods exampleWorld (Named 12)))"
    by code_simp
  have m: "map_of (Methods exampleWorld (Named 12)) ''DeepCopy'' =
             Some (Signature (Pointer (Named 12)) [] [Pointer (Named 12)])"
    by code_simp
  have "hasDeepCopy exampleWorld (Named 12) [0] False = (True, True)"
    using hasDeepCopy_declared [OF a d, of False] unfolding m by simp
  with a d m show ?thesis
    by (intro conjI)
qed

end
